theory Spec2Isabelle
  imports Complex_Main
begin

section \<open>Data model\<close>

text \<open>
  The client is the Python class \<open>CassandraReaper\<close>: a \<open>requests\<close> session, the
  credentials and the current bearer token. Every method of the class is embedded as a
  function that takes the session state and returns the outcome together with the state
  after the call. A raised exception is the \<open>Inl\<close> branch of the outcome.
\<close>

text \<open>Python values that occur as query parameters, form fields and decoded JSON.
  A Python \<open>float\<close> is only ever tested against zero here, so a rational stands for it.\<close>

datatype pyval =
    PNone
  | PBool bool
  | PInt int
  | PFloat rat
  | PStr string
  | PList "pyval list"
  | PDict "(string \<times> pyval) list"

text \<open>A Python \<open>dict\<close> with string keys: insertion ordered, keys unique.\<close>

type_synonym dict = "(string \<times> pyval) list"

text \<open>\<open>d[k] = v\<close>: overwrite in place, or append a new key at the end.\<close>

fun setitem :: "dict \<Rightarrow> string \<Rightarrow> pyval \<Rightarrow> dict" where
  "setitem [] k v = [(k, v)]"
| "setitem ((k', v') # d) k v =
     (if k' = k then (k, v) # d else (k', v') # setitem d k v)"

text \<open>Python truthiness, as tested by \<open>if x:\<close>.\<close>

fun truthy :: "pyval \<Rightarrow> bool" where
  "truthy PNone = False"
| "truthy (PBool b) = b"
| "truthy (PInt i) = (i \<noteq> 0)"
| "truthy (PFloat x) = (x \<noteq> 0)"
| "truthy (PStr s) = (s \<noteq> [])"
| "truthy (PList xs) = (xs \<noteq> [])"
| "truthy (PDict d) = (d \<noteq> [])"

text \<open>\<open>sep.join(xs)\<close> on a list of strings.\<close>

fun join :: "string \<Rightarrow> string list \<Rightarrow> string" where
  "join sep [] = []"
| "join sep [x] = x"
| "join sep (x # y # ys) = x @ sep @ join sep (y # ys)"

text \<open>\<open>str(n)\<close> for an integer, used when a status code is formatted into a message.\<close>

definition digit :: "nat \<Rightarrow> char" where
  "digit d = ''0123456789'' ! d"

fun str_nat :: "nat \<Rightarrow> string" where
  "str_nat n = (if n < 10 then [digit n] else str_nat (n div 10) @ [digit (n mod 10)])"

definition str_int :: "int \<Rightarrow> string" where
  "str_int i = (if i < 0 then CHR ''-'' # str_nat (nat (- i)) else str_nat (nat i))"

datatype verb = GET | POST | PUT | PATCH | DELETE

text \<open>The body keyword given to the transport: none, \<open>data=\<close> (form encoded) or
  \<open>json=\<close> (JSON encoded).\<close>

datatype body = NoBody | Data dict | Json pyval

text \<open>
  One call of \<open>self.__s.<verb>(url, params=..., data=... / json=..., timeout=...)\<close> as the
  transport sees it. \<open>params\<close> and \<open>timeout\<close> are \<open>None\<close> when the keyword is not passed.
  \<open>authorization\<close> is the \<open>Authorization\<close> entry of the session's header table at the
  moment of the call, which \<open>requests\<close> attaches to every request of the session.
\<close>

record request =
  verb :: verb
  req_url :: string
  params :: "dict option"
  body :: body
  timeout :: "pyval option"
  authorization :: "string option"

record response =
  resp_url :: string
  status_code :: int
  resp_text :: string

text \<open>
  \<open>Response.ok\<close> of the \<open>requests\<close> library: true unless \<open>raise_for_status()\<close> raises,
  and that raises exactly for \<open>400 <= status_code < 600\<close>.
\<close>

definition ok :: "response \<Rightarrow> bool" where
  "ok r \<longleftrightarrow> \<not> (400 \<le> status_code r \<and> status_code r < 600)"

text \<open>The exceptions the modelled code can raise. \<open>AuthError\<close> and \<open>HTTPError\<close> carry
  their message; \<open>TransportError\<close> stands for every fault raised by the transport itself
  (connection refused, timeout, ...).\<close>

datatype error =
    AuthError string
  | HTTPError string
  | TransportError
  | JSONDecodeError
  | KeyError string
  | TypeError

text \<open>
  What happens during calls, in order: a request handed to the transport, an entry into
  \<open>login()\<close>, and the assignment of a fresh token at the end of a successful \<open>login()\<close>.
\<close>

datatype event = Sent request | LoginCalled | LoginDone string

fun history :: "event list \<Rightarrow> request list" where
  "history [] = []"
| "history (Sent rq # es) = rq # history es"
| "history (LoginCalled # es) = history es"
| "history (LoginDone t # es) = history es"

text \<open>
  The surroundings of the client: \<open>urljoin\<close> of the standard library, the HTTP transport
  (the answer may depend on everything sent before; \<open>None\<close> is a transport fault), and
  the JSON decoder behind \<open>Response.json()\<close> (\<open>None\<close> is a decoding failure).
\<close>

record env =
  urljoin :: "string \<Rightarrow> string \<Rightarrow> string"
  transport :: "request list \<Rightarrow> request \<Rightarrow> response option"
  json_loads :: "string \<Rightarrow> pyval option"

text \<open>
  The instance attributes of \<open>CassandraReaper\<close>: \<open>s_verify\<close> and \<open>s_authorization\<close> are
  \<open>self.__s.verify\<close> and \<open>self.__s.headers['Authorization']\<close>; \<open>trace\<close> records the
  events so far.
\<close>

record session =
  url :: string
  s_verify :: bool
  s_authorization :: "string option"
  user :: string
  password :: string
  token :: string
  trace :: "event list"

type_synonym 'a outcome = "(error + 'a) \<times> session"

section \<open>The session layer\<close>

text \<open>\<open>self.__s.<verb>(...)\<close>: hand one request to the transport, with the session's
  current \<open>Authorization\<close> header.\<close>

definition session_send ::
  "env \<Rightarrow> verb \<Rightarrow> string \<Rightarrow> dict option \<Rightarrow> body \<Rightarrow> pyval option \<Rightarrow> session \<Rightarrow> response outcome" where
  "session_send e v u ps b t s =
     (let rq = \<lparr>verb = v, req_url = u, params = ps, body = b, timeout = t,
                authorization = s_authorization s\<rparr>;
          s' = s\<lparr>trace := trace s @ [Sent rq]\<rparr>
      in case transport e (history (trace s)) rq of
           None \<Rightarrow> (Inl TransportError, s')
         | Some r \<Rightarrow> (Inr r, s'))"

definition check_msg :: "response \<Rightarrow> string" where
  "check_msg r = ''URL: '' @ resp_url r @ '', Status: '' @ str_int (status_code r)
                 @ '', Text: '' @ resp_text r"

definition check_req :: "response \<Rightarrow> error + unit" where
  "check_req r =
     (if \<not> ok r then
        (if status_code r \<in> {403, 498, 499} then Inl (AuthError (check_msg r))
         else Inl (HTTPError (check_msg r)))
      else Inr ())"

definition login :: "env \<Rightarrow> session \<Rightarrow> unit outcome" where
  "login e s0 =
     (let s = s0\<lparr>trace := trace s0 @ [LoginCalled]\<rparr>;
          data = [(''username'', PStr (user s)), (''password'', PStr (password s)),
                  (''rememberMe'', PBool False)];
          login_url = urljoin e (url s) ''login''
      in case session_send e POST login_url None (Data data) None s of
           (Inl x, s1) \<Rightarrow> (Inl x, s1)
         | (Inr login_req, s1) \<Rightarrow>
             (case check_req login_req of
                Inl x \<Rightarrow> (Inl x, s1)
              | Inr _ \<Rightarrow>
                  (let jwt_url = urljoin e (url s1) ''jwt''
                   in case session_send e GET jwt_url None NoBody None s1 of
                        (Inl x, s2) \<Rightarrow> (Inl x, s2)
                      | (Inr jwt_req, s2) \<Rightarrow>
                          (case check_req jwt_req of
                             Inl x \<Rightarrow> (Inl x, s2)
                           | Inr _ \<Rightarrow>
                               (Inr (),
                                s2\<lparr>token := resp_text jwt_req,
                                   s_authorization := Some (''Bearer '' @ resp_text jwt_req),
                                   trace := trace s2 @ [LoginDone (resp_text jwt_req)]\<rparr>)))))"

text \<open>\<open>__init__\<close>, inside a world whose events so far are \<open>tr\<close>.\<close>

definition init ::
  "env \<Rightarrow> event list \<Rightarrow> string \<Rightarrow> string \<Rightarrow> string \<Rightarrow> bool \<Rightarrow> bool \<Rightarrow> unit outcome" where
  "init e tr u usr pw verify_ssl do_login =
     (let s = \<lparr>url = u, s_verify = verify_ssl, s_authorization = None, user = usr,
               password = pw, token = [], trace = tr\<rparr>
      in if do_login then login e s else (Inr (), s))"

text \<open>The decorator \<open>__auth_req\<close>: on \<open>AuthError\<close>, log in and call \<open>func\<close> once more.\<close>

definition auth_req :: "env \<Rightarrow> (session \<Rightarrow> 'a outcome) \<Rightarrow> session \<Rightarrow> 'a outcome" where
  "auth_req e func s =
     (case func s of
        (Inr r, s1) \<Rightarrow> (Inr r, s1)
      | (Inl x, s1) \<Rightarrow>
          (case x of
             AuthError m \<Rightarrow>
               (case login e s1 of
                  (Inl y, s2) \<Rightarrow> (Inl y, s2)
                | (Inr _, s2) \<Rightarrow> func s2)
           | _ \<Rightarrow> (Inl x, s1)))"

text \<open>The body shared by the five undecorated verb helpers: join the URL, send, check.\<close>

definition send_checked ::
  "env \<Rightarrow> verb \<Rightarrow> string \<Rightarrow> dict \<Rightarrow> body \<Rightarrow> pyval \<Rightarrow> session \<Rightarrow> response outcome" where
  "send_checked e v query ps b t s =
     (let u = urljoin e (url s) query
      in case session_send e v u (Some ps) b (Some t) s of
           (Inl x, s1) \<Rightarrow> (Inl x, s1)
         | (Inr req, s1) \<Rightarrow>
             (case check_req req of Inl x \<Rightarrow> (Inl x, s1) | Inr _ \<Rightarrow> (Inr req, s1)))"

definition priv_get :: "env \<Rightarrow> session \<Rightarrow> string \<Rightarrow> dict \<Rightarrow> pyval \<Rightarrow> response outcome" where
  "priv_get e s query ps t = auth_req e (send_checked e GET query ps NoBody t) s"

definition priv_delete :: "env \<Rightarrow> session \<Rightarrow> string \<Rightarrow> dict \<Rightarrow> pyval \<Rightarrow> response outcome" where
  "priv_delete e s query ps t = auth_req e (send_checked e DELETE query ps NoBody t) s"

definition priv_post ::
  "env \<Rightarrow> session \<Rightarrow> string \<Rightarrow> dict \<Rightarrow> dict \<Rightarrow> pyval \<Rightarrow> response outcome" where
  "priv_post e s query ps data t = auth_req e (send_checked e POST query ps (Data data) t) s"

definition priv_put ::
  "env \<Rightarrow> session \<Rightarrow> string \<Rightarrow> dict \<Rightarrow> dict \<Rightarrow> pyval \<Rightarrow> response outcome" where
  "priv_put e s query ps data t = auth_req e (send_checked e PUT query ps (Data data) t) s"

definition priv_patch ::
  "env \<Rightarrow> session \<Rightarrow> string \<Rightarrow> dict \<Rightarrow> pyval \<Rightarrow> pyval \<Rightarrow> response outcome" where
  "priv_patch e s query ps js t = auth_req e (send_checked e PATCH query ps (Json js) t) s"

definition update_password :: "session \<Rightarrow> string \<Rightarrow> session" where
  "update_password s new_password = s\<lparr>password := new_password\<rparr>"

section \<open>Facade operations\<close>

text \<open>\<open>req.json()\<close> and \<open>obj[key]\<close> with a string key.\<close>

definition resp_json :: "env \<Rightarrow> response \<Rightarrow> error + pyval" where
  "resp_json e r = (case json_loads e (resp_text r) of None \<Rightarrow> Inl JSONDecodeError | Some v \<Rightarrow> Inr v)"

fun getitem :: "pyval \<Rightarrow> string \<Rightarrow> error + pyval" where
  "getitem (PDict d) k = (case map_of d k of None \<Rightarrow> Inl (KeyError k) | Some v \<Rightarrow> Inr v)"
| "getitem PNone k = Inl TypeError"
| "getitem (PBool b) k = Inl TypeError"
| "getitem (PInt i) k = Inl TypeError"
| "getitem (PFloat x) k = Inl TypeError"
| "getitem (PStr s) k = Inl TypeError"
| "getitem (PList xs) k = Inl TypeError"

definition get_clusters :: "env \<Rightarrow> session \<Rightarrow> pyval \<Rightarrow> pyval outcome" where
  "get_clusters e s t =
     (case priv_get e s ''cluster'' [] t of
        (Inl x, s1) \<Rightarrow> (Inl x, s1)
      | (Inr req, s1) \<Rightarrow> (resp_json e req, s1))"

definition get_repairs ::
  "env \<Rightarrow> session \<Rightarrow> string \<Rightarrow> string list \<Rightarrow> pyval \<Rightarrow> pyval outcome" where
  "get_repairs e s cluster states t =
     (let ps0 = [];
          ps1 = (if cluster \<noteq> [] then setitem ps0 ''cluster_name'' (PStr cluster) else ps0);
          ps2 = (if states \<noteq> [] then setitem ps1 ''state'' (PStr (join '','' states)) else ps1)
      in case priv_get e s ''repair_run'' ps2 t of
           (Inl x, s1) \<Rightarrow> (Inl x, s1)
         | (Inr req, s1) \<Rightarrow> (resp_json e req, s1))"

definition get_repair :: "env \<Rightarrow> session \<Rightarrow> string \<Rightarrow> pyval \<Rightarrow> pyval outcome" where
  "get_repair e s ident t =
     (case priv_get e s (''repair_run/'' @ ident) [] t of
        (Inl x, s1) \<Rightarrow> (Inl x, s1)
      | (Inr req, s1) \<Rightarrow> (resp_json e req, s1))"

text \<open>\<open>delete_repair\<close> reads the repair with \<open>get_repair(id)\<close>, that is with the default
  timeout of 10, and passes its own \<open>timeout\<close> to the DELETE only.\<close>

definition delete_repair :: "env \<Rightarrow> session \<Rightarrow> string \<Rightarrow> pyval \<Rightarrow> unit outcome" where
  "delete_repair e s ident t =
     (case get_repair e s ident (PInt 10) of
        (Inl x, s1) \<Rightarrow> (Inl x, s1)
      | (Inr repair, s1) \<Rightarrow>
          (case getitem repair ''owner'' of
             Inl x \<Rightarrow> (Inl x, s1)
           | Inr owner \<Rightarrow>
               (let ps = [(''owner'', owner)]
                in case priv_delete e s1 (''repair_run/'' @ ident) ps t of
                     (Inl x, s2) \<Rightarrow> (Inl x, s2)
                   | (Inr _, s2) \<Rightarrow> (Inr (), s2))))"

definition get_schedules ::
  "env \<Rightarrow> session \<Rightarrow> string \<Rightarrow> string \<Rightarrow> pyval \<Rightarrow> pyval outcome" where
  "get_schedules e s cluster keyspace t =
     (let ps0 = [];
          ps1 = (if cluster \<noteq> [] then setitem ps0 ''clusterName'' (PStr cluster) else ps0);
          ps2 = (if keyspace \<noteq> [] then setitem ps1 ''keyspace'' (PStr keyspace) else ps1)
      in case priv_get e s ''repair_schedule'' ps2 t of
           (Inl x, s1) \<Rightarrow> (Inl x, s1)
         | (Inr req, s1) \<Rightarrow> (resp_json e req, s1))"

definition get_schedule :: "env \<Rightarrow> session \<Rightarrow> string \<Rightarrow> pyval \<Rightarrow> pyval outcome" where
  "get_schedule e s ident t =
     (case priv_get e s (''repair_schedule/'' @ ident) [] t of
        (Inl x, s1) \<Rightarrow> (Inl x, s1)
      | (Inr req, s1) \<Rightarrow> (resp_json e req, s1))"

definition delete_schedule :: "env \<Rightarrow> session \<Rightarrow> string \<Rightarrow> pyval \<Rightarrow> unit outcome" where
  "delete_schedule e s ident t =
     (case get_schedule e s ident (PInt 10) of
        (Inl x, s1) \<Rightarrow> (Inl x, s1)
      | (Inr schedule, s1) \<Rightarrow>
          (case getitem schedule ''owner'' of
             Inl x \<Rightarrow> (Inl x, s1)
           | Inr owner \<Rightarrow>
               (let ps = [(''owner'', owner)]
                in case priv_delete e s1 (''repair_schedule/'' @ ident) ps t of
                     (Inl x, s2) \<Rightarrow> (Inl x, s2)
                   | (Inr _, s2) \<Rightarrow> (Inr (), s2))))"

text \<open>
  The keyword arguments of \<open>add_schedule\<close>. \<open>as_schedule_trigger_time\<close> is the text that
  \<open>schedule_trigger_time.isoformat()\<close> yields.
\<close>

record add_schedule_args =
  as_cluster :: string
  as_keyspace :: string
  as_owner :: string
  as_schedule_days_between :: int
  as_segment_count_per_node :: int
  as_intensity :: rat
  as_repair_parallelism :: string
  as_repair_thread_count :: int
  as_nodes :: "string list"
  as_schedule_trigger_time :: string
  as_datacenters :: "string list"
  as_tables :: "string list"
  as_blacklisted_tables :: "string list"
  as_incremental_repair :: bool
  as_adaptive :: bool
  as_percent_unrepaired_threshold :: int
  as_timeout :: pyval

definition add_schedule :: "env \<Rightarrow> session \<Rightarrow> add_schedule_args \<Rightarrow> unit outcome" where
  "add_schedule e s a =
     (let ps0 = [(''clusterName'', PStr (as_cluster a)),
                 (''keyspace'', PStr (as_keyspace a)),
                 (''owner'', PStr (as_owner a)),
                 (''scheduleDaysBetween'', PInt (as_schedule_days_between a)),
                 (''repairParallelism'', PStr (as_repair_parallelism a)),
                 (''incrementalRepair'', PBool (as_incremental_repair a)),
                 (''scheduleTriggerTime'', PStr (as_schedule_trigger_time a)),
                 (''repairThreadCount'', PInt (as_repair_thread_count a)),
                 (''adaptive'', PBool (as_adaptive a)),
                 (''percentUnrepairedThreshold'', PInt (as_percent_unrepaired_threshold a))];
          ps1 = (if as_tables a \<noteq> []
                 then setitem ps0 ''tables'' (PList (map PStr (as_tables a))) else ps0);
          ps2 = (if as_segment_count_per_node a \<noteq> 0
                 then setitem ps1 ''segmentCountPerNode'' (PInt (as_segment_count_per_node a))
                 else ps1);
          ps3 = (if as_intensity a \<noteq> 0
                 then setitem ps2 ''intensity'' (PFloat (as_intensity a)) else ps2);
          ps4 = (if as_nodes a \<noteq> []
                 then setitem ps3 ''nodes'' (PList (map PStr (as_nodes a))) else ps3);
          ps5 = (if as_datacenters a \<noteq> []
                 then setitem ps4 ''datacenters'' (PList (map PStr (as_datacenters a))) else ps4);
          ps6 = (if as_blacklisted_tables a \<noteq> []
                 then setitem ps5 ''blacklistedTables''
                        (PList (map PStr (as_blacklisted_tables a)))
                 else ps5)
      in case priv_post e s ''repair_schedule'' ps6 [] (as_timeout a) of
           (Inl x, s1) \<Rightarrow> (Inl x, s1)
         | (Inr _, s1) \<Rightarrow> (Inr (), s1))"

definition create_cluster_snapshot ::
  "env \<Rightarrow> session \<Rightarrow> string \<Rightarrow> string \<Rightarrow> string \<Rightarrow> string \<Rightarrow> string \<Rightarrow> string list \<Rightarrow> pyval
     \<Rightarrow> unit outcome" where
  "create_cluster_snapshot e s cluster snapshot_name owner cause keyspace tables t =
     (let ps0 = [(''snapshot_name'', PStr snapshot_name), (''owner'', PStr owner)];
          ps1 = (if keyspace \<noteq> [] then setitem ps0 ''keyspace'' (PStr keyspace) else ps0);
          ps2 = (if tables \<noteq> [] then setitem ps1 ''tables'' (PStr (join '','' tables)) else ps1);
          ps3 = (if cause \<noteq> [] then setitem ps2 ''cause'' (PStr cause) else ps2)
      in case priv_post e s (''/snapshot/cluster/'' @ cluster) ps3 [] t of
           (Inl x, s1) \<Rightarrow> (Inl x, s1)
         | (Inr _, s1) \<Rightarrow> (Inr (), s1))"

definition create_host_snapshot ::
  "env \<Rightarrow> session \<Rightarrow> string \<Rightarrow> string \<Rightarrow> string \<Rightarrow> string \<Rightarrow> string \<Rightarrow> string \<Rightarrow> string list
     \<Rightarrow> pyval \<Rightarrow> unit outcome" where
  "create_host_snapshot e s cluster host snapshot_name owner cause keyspace tables t =
     (let ps0 = [(''snapshot_name'', PStr snapshot_name), (''owner'', PStr owner)];
          ps1 = (if keyspace \<noteq> [] then setitem ps0 ''keyspace'' (PStr keyspace) else ps0);
          ps2 = (if tables \<noteq> [] then setitem ps1 ''tables'' (PStr (join '','' tables)) else ps1);
          ps3 = (if cause \<noteq> [] then setitem ps2 ''cause'' (PStr cause) else ps2)
      in case priv_post e s (''/snapshot/'' @ cluster @ ''/'' @ host) ps3 [] t of
           (Inl x, s1) \<Rightarrow> (Inl x, s1)
         | (Inr _, s1) \<Rightarrow> (Inr (), s1))"

section \<open>Observing a call\<close>

text \<open>The events that a call added, given the state before and the state after.\<close>

definition new_events :: "session \<Rightarrow> session \<Rightarrow> event list" where
  "new_events s s' = drop (length (trace s)) (trace s')"

text \<open>
  The two requests of \<open>login()\<close> pass neither \<open>params\<close> nor \<open>timeout\<close>; every request of a
  verb helper passes both. \<open>helper_requests\<close> keeps the requests of the verb helpers.
\<close>

definition from_helper :: "request \<Rightarrow> bool" where
  "from_helper rq \<longleftrightarrow> params rq \<noteq> None \<and> timeout rq \<noteq> None"

definition helper_requests :: "event list \<Rightarrow> request list" where
  "helper_requests evs = filter from_helper (history evs)"

text \<open>The keys of the query parameters of a request (none when \<open>params\<close> is not passed).\<close>

definition param_keys :: "request \<Rightarrow> string set" where
  "param_keys rq = (case params rq of None \<Rightarrow> {} | Some ps \<Rightarrow> fst ` set ps)"

text \<open>
  \<open>attach_ok h evs\<close>: along \<open>evs\<close>, every request carries the \<open>Authorization\<close> header that
  is current when it is sent: \<open>h\<close> at the start, \<open>Bearer t\<close> from a successful login with
  token \<open>t\<close> on. \<open>auth_after h evs\<close> is the header current at the end.
\<close>

fun attach_ok :: "string option \<Rightarrow> event list \<Rightarrow> bool" where
  "attach_ok h [] = True"
| "attach_ok h (Sent rq # es) = (authorization rq = h \<and> attach_ok h es)"
| "attach_ok h (LoginCalled # es) = attach_ok h es"
| "attach_ok h (LoginDone t # es) = attach_ok (Some (''Bearer '' @ t)) es"

fun auth_after :: "string option \<Rightarrow> event list \<Rightarrow> string option" where
  "auth_after h [] = h"
| "auth_after h (Sent rq # es) = auth_after h es"
| "auth_after h (LoginCalled # es) = auth_after h es"
| "auth_after h (LoginDone t # es) = auth_after (Some (''Bearer '' @ t)) es"

text \<open>
  A caller's use of one session: any sequence of logins, password updates and verb-helper
  calls, each run to its end whether it returns or raises.
\<close>

datatype call =
    CallLogin
  | CallUpdatePassword string
  | CallGet string dict pyval
  | CallDelete string dict pyval
  | CallPost string dict dict pyval
  | CallPut string dict dict pyval
  | CallPatch string dict pyval pyval

fun exec :: "env \<Rightarrow> session \<Rightarrow> call \<Rightarrow> session" where
  "exec e s CallLogin = snd (login e s)"
| "exec e s (CallUpdatePassword p) = update_password s p"
| "exec e s (CallGet q ps t) = snd (priv_get e s q ps t)"
| "exec e s (CallDelete q ps t) = snd (priv_delete e s q ps t)"
| "exec e s (CallPost q ps d t) = snd (priv_post e s q ps d t)"
| "exec e s (CallPut q ps d t) = snd (priv_put e s q ps d t)"
| "exec e s (CallPatch q ps js t) = snd (priv_patch e s q ps js t)"

fun run :: "env \<Rightarrow> session \<Rightarrow> call list \<Rightarrow> session" where
  "run e s [] = s"
| "run e s (c # cs) = run e (exec e s c) cs"

text \<open>The requests that the code builds: the two of \<open>login()\<close> and the one of a verb
  helper called with \<open>query\<close>, \<open>params\<close>, a body and \<open>timeout\<close>.\<close>

definition login_post :: "env \<Rightarrow> session \<Rightarrow> request" where
  "login_post e s =
     \<lparr>verb = POST, req_url = urljoin e (url s) ''login'', params = None,
      body = Data [(''username'', PStr (user s)), (''password'', PStr (password s)),
                   (''rememberMe'', PBool False)],
      timeout = None, authorization = s_authorization s\<rparr>"

definition login_get :: "env \<Rightarrow> session \<Rightarrow> request" where
  "login_get e s =
     \<lparr>verb = GET, req_url = urljoin e (url s) ''jwt'', params = None, body = NoBody,
      timeout = None, authorization = s_authorization s\<rparr>"

definition helper_request ::
  "env \<Rightarrow> session \<Rightarrow> verb \<Rightarrow> string \<Rightarrow> dict \<Rightarrow> body \<Rightarrow> pyval \<Rightarrow> request" where
  "helper_request e s v query ps b t =
     \<lparr>verb = v, req_url = urljoin e (url s) query, params = Some ps, body = b,
      timeout = Some t, authorization = s_authorization s\<rparr>"

section \<open>A scripted service for concrete runs\<close>

text \<open>
  A mock service that answers the n-th request of a run with the n-th entry of a script
  and fails at the transport level once the script is used up. URLs are joined by
  concatenation and two JSON texts are decoded.
\<close>

definition reply :: "int \<Rightarrow> string \<Rightarrow> response option" where
  "reply code txt = Some \<lparr>resp_url = ''http://reaper/'', status_code = code, resp_text = txt\<rparr>"

definition mock_json :: "string \<Rightarrow> pyval option" where
  "mock_json txt =
     (if txt = ''[c1,c2]'' then Some (PList [PStr ''c1'', PStr ''c2''])
      else if txt = ''{owner:bob}'' then Some (PDict [(''owner'', PStr ''bob'')])
      else None)"

definition scripted :: "response option list \<Rightarrow> env" where
  "scripted script =
     \<lparr>urljoin = (\<lambda>base query. base @ query),
      transport = (\<lambda>h rq. if length h < length script then script ! length h else None),
      json_loads = mock_json\<rparr>"

definition fresh :: session where
  "fresh = \<lparr>url = ''http://reaper/'', s_verify = True, s_authorization = None,
            user = ''admin'', password = ''secret'', token = [], trace = []\<rparr>"

text \<open>\<open>token_after tk evs\<close>: the token that is stored after \<open>evs\<close> when it was \<open>tk\<close> before,
  if only the successful logins in \<open>evs\<close> assign it.\<close>

fun token_after :: "string \<Rightarrow> event list \<Rightarrow> string" where
  "token_after tk [] = tk"
| "token_after tk (Sent rq # es) = token_after tk es"
| "token_after tk (LoginCalled # es) = token_after tk es"
| "token_after tk (LoginDone t # es) = token_after t es"

fun is_LoginDone :: "event \<Rightarrow> bool" where
  "is_LoginDone (LoginDone t) = True"
| "is_LoginDone (Sent rq) = False"
| "is_LoginDone LoginCalled = False"

text \<open>What a call may do to the session: add events, along which every request carries
  the current header, and change the token and the header at successful logins only.\<close>

definition effect :: "session \<Rightarrow> session \<Rightarrow> bool" where
  "effect s s' \<longleftrightarrow>
     (\<exists>evs. trace s' = trace s @ evs \<and> attach_ok (s_authorization s) evs
            \<and> s_authorization s' = auth_after (s_authorization s) evs
            \<and> token s' = token_after (token s) evs)
     \<and> url s' = url s \<and> user s' = user s \<and> s_verify s' = s_verify s"

text \<open>The query parameter keys that the verb helpers sent between two states.\<close>

definition sent_keys :: "session \<Rightarrow> session \<Rightarrow> string set" where
  "sent_keys s s' = \<Union> (param_keys ` set (helper_requests (new_events s s')))"

section \<open>Unfolding the session layer\<close>

lemma history_append: "history (xs @ ys) = history xs @ history ys"
  by (induction xs rule: history.induct) simp_all

lemma check_req_cases:
  "check_req r =
     (if status_code r \<in> {403, 498, 499} then Inl (AuthError (check_msg r))
      else if 400 \<le> status_code r \<and> status_code r < 600 then Inl (HTTPError (check_msg r))
      else Inr ())"
  by (auto simp: check_req_def ok_def)

lemma login_unfold:
  "login e s =
     (case transport e (history (trace s)) (login_post e s) of
        None \<Rightarrow> (Inl TransportError, s\<lparr>trace := trace s @ [LoginCalled, Sent (login_post e s)]\<rparr>)
      | Some r1 \<Rightarrow>
          (case check_req r1 of
             Inl x \<Rightarrow> (Inl x, s\<lparr>trace := trace s @ [LoginCalled, Sent (login_post e s)]\<rparr>)
           | Inr _ \<Rightarrow>
               (case transport e (history (trace s) @ [login_post e s]) (login_get e s) of
                  None \<Rightarrow>
                    (Inl TransportError,
                     s\<lparr>trace := trace s @ [LoginCalled, Sent (login_post e s), Sent (login_get e s)]\<rparr>)
                | Some r2 \<Rightarrow>
                    (case check_req r2 of
                       Inl x \<Rightarrow>
                         (Inl x,
                          s\<lparr>trace := trace s @ [LoginCalled, Sent (login_post e s),
                                                 Sent (login_get e s)]\<rparr>)
                     | Inr _ \<Rightarrow>
                         (Inr (),
                          s\<lparr>token := resp_text r2,
                            s_authorization := Some (''Bearer '' @ resp_text r2),
                            trace := trace s @ [LoginCalled, Sent (login_post e s),
                                                Sent (login_get e s), LoginDone (resp_text r2)]\<rparr>)))))"
  by (simp add: login_def session_send_def login_post_def login_get_def history_append Let_def
           split: option.splits sum.splits)

lemma send_checked_unfold:
  "send_checked e v q ps b t s =
     (case transport e (history (trace s)) (helper_request e s v q ps b t) of
        None \<Rightarrow> (Inl TransportError, s\<lparr>trace := trace s @ [Sent (helper_request e s v q ps b t)]\<rparr>)
      | Some r \<Rightarrow>
          (case check_req r of
             Inl x \<Rightarrow> (Inl x, s\<lparr>trace := trace s @ [Sent (helper_request e s v q ps b t)]\<rparr>)
           | Inr _ \<Rightarrow> (Inr r, s\<lparr>trace := trace s @ [Sent (helper_request e s v q ps b t)]\<rparr>)))"
  by (simp add: send_checked_def session_send_def helper_request_def Let_def
           split: option.splits sum.splits)

lemma new_events_append [simp]: "new_events s (s'\<lparr>trace := trace s @ evs\<rparr>) = evs"
  by (simp add: new_events_def)

lemma from_helper_simps [simp]:
  "from_helper (helper_request e s v q ps b t)"
  "\<not> from_helper (login_post e s)"
  "\<not> from_helper (login_get e s)"
  by (simp_all add: from_helper_def helper_request_def login_post_def login_get_def)

lemma login_trace:
  assumes "login e s = (r, s')"
  shows "\<exists>evs. trace s' = trace s @ LoginCalled # evs \<and> LoginCalled \<notin> set evs
               \<and> helper_requests evs = [] \<and> url s' = url s \<and> password s' = password s
               \<and> user s' = user s \<and> s_verify s' = s_verify s
               \<and> length (history evs) \<le> 2"
  using assms
  by (auto simp: login_unfold helper_requests_def split: option.splits sum.splits)

section \<open>Retry once on an expired token\<close>

text \<open>
  Claim C1. Every verb helper is \<open>auth_req\<close> around \<open>send_checked\<close> for its verb and
  body. If the answer to the first request has a status in \<open>{403, 498, 499}\<close>, the login
  that follows succeeds, and the answer to the request sent again passes the check, then
  the helper returns that second answer, and \<open>login()\<close> was entered exactly once during
  the call.
\<close>

theorem retry_once_then_ok:
  assumes first: "transport e (history (trace s)) (helper_request e s v q ps b t) = Some r1"
      and expired: "status_code r1 \<in> {403, 498, 499}"
      and relogin: "login e (s\<lparr>trace := trace s @ [Sent (helper_request e s v q ps b t)]\<rparr>) = (Inr (), s2)"
      and second: "transport e (history (trace s2)) (helper_request e s2 v q ps b t) = Some r2"
      and fine: "check_req r2 = Inr ()"
  shows "auth_req e (send_checked e v q ps b t) s
           = (Inr r2, s2\<lparr>trace := trace s2 @ [Sent (helper_request e s2 v q ps b t)]\<rparr>)
       \<and> count_list (new_events s (snd (auth_req e (send_checked e v q ps b t) s))) LoginCalled = 1"
proof -
  let ?s1 = "s\<lparr>trace := trace s @ [Sent (helper_request e s v q ps b t)]\<rparr>"
  have f1: "send_checked e v q ps b t s = (Inl (AuthError (check_msg r1)), ?s1)"
    using first expired by (simp add: send_checked_unfold check_req_cases)
  have f2: "send_checked e v q ps b t s2
              = (Inr r2, s2\<lparr>trace := trace s2 @ [Sent (helper_request e s2 v q ps b t)]\<rparr>)"
    using second fine by (simp add: send_checked_unfold)
  have res: "auth_req e (send_checked e v q ps b t) s
           = (Inr r2, s2\<lparr>trace := trace s2 @ [Sent (helper_request e s2 v q ps b t)]\<rparr>)"
    by (simp add: auth_req_def f1 relogin f2)
  from login_trace [OF relogin] obtain evs where
    tr: "trace s2 = trace ?s1 @ LoginCalled # evs" and no: "LoginCalled \<notin> set evs"
    by blast
  have "count_list (new_events s (snd (auth_req e (send_checked e v q ps b t) s))) LoginCalled = 1"
    using tr no by (simp add: res new_events_def count_list_0_iff)
  with res show ?thesis by simp
qed

theorem retry_once_then_ok_witness:
  "fst (priv_get (scripted [reply 403 ''expired'', reply 200 [], reply 200 ''tok-2'',
                            reply 200 ''[c1,c2]''])
          fresh ''cluster'' [] (PInt 10))
     = Inr \<lparr>resp_url = ''http://reaper/'', status_code = 200, resp_text = ''[c1,c2]''\<rparr>
   \<and> count_list (new_events fresh
                   (snd (priv_get (scripted [reply 403 ''expired'', reply 200 [],
                                             reply 200 ''tok-2'', reply 200 ''[c1,c2]''])
                           fresh ''cluster'' [] (PInt 10)))) LoginCalled = 1"
proof -
  let ?e = "scripted [reply 403 ''expired'', reply 200 [], reply 200 ''tok-2'', reply 200 ''[c1,c2]'']"
  let ?rq = "helper_request ?e fresh GET ''cluster'' [] NoBody (PInt 10)"
  let ?s1 = "fresh\<lparr>trace := trace fresh @ [Sent ?rq]\<rparr>"
  let ?s2 = "snd (login ?e ?s1)"
  let ?r1 = "\<lparr>resp_url = ''http://reaper/'', status_code = 403, resp_text = ''expired''\<rparr>"
  let ?r2 = "\<lparr>resp_url = ''http://reaper/'', status_code = 200, resp_text = ''[c1,c2]''\<rparr>"
  have h1: "transport ?e (history (trace fresh)) ?rq = Some ?r1"
    by (simp add: scripted_def reply_def fresh_def)
  have h2: "status_code ?r1 \<in> {403, 498, 499}" by simp
  have "fst (login ?e ?s1) = Inr ()"
    by (simp add: login_unfold scripted_def reply_def fresh_def check_req_cases history_append)
  then have h3: "login ?e ?s1 = (Inr (), ?s2)"
    by (metis prod.collapse)
  have h4: "transport ?e (history (trace ?s2)) (helper_request ?e ?s2 GET ''cluster'' [] NoBody (PInt 10))
              = Some ?r2"
    by (simp add: login_unfold scripted_def reply_def fresh_def check_req_cases history_append)
  have h5: "check_req ?r2 = Inr ()" by (simp add: check_req_cases)
  show ?thesis
    unfolding priv_get_def
    using retry_once_then_ok [OF h1 h2 h3 h4 h5]
    by (metis fst_conv)
qed

lemma helper_requests_simps [simp]:
  "helper_requests [] = []"
  "helper_requests (Sent rq # es) = (if from_helper rq then rq # helper_requests es else helper_requests es)"
  "helper_requests (LoginCalled # es) = helper_requests es"
  "helper_requests (LoginDone tk # es) = helper_requests es"
  "helper_requests (xs @ ys) = helper_requests xs @ helper_requests ys"
  by (simp_all add: helper_requests_def history_append)

lemma auth_req_unfold:
  "auth_req e (send_checked e v q ps b t) s =
     (case transport e (history (trace s)) (helper_request e s v q ps b t) of
        None \<Rightarrow> (Inl TransportError, s\<lparr>trace := trace s @ [Sent (helper_request e s v q ps b t)]\<rparr>)
      | Some r \<Rightarrow>
          (if status_code r \<in> {403, 498, 499}
           then (case login e (s\<lparr>trace := trace s @ [Sent (helper_request e s v q ps b t)]\<rparr>) of
                   (Inl y, s2) \<Rightarrow> (Inl y, s2)
                 | (Inr _, s2) \<Rightarrow> send_checked e v q ps b t s2)
           else if 400 \<le> status_code r \<and> status_code r < 600
           then (Inl (HTTPError (check_msg r)),
                 s\<lparr>trace := trace s @ [Sent (helper_request e s v q ps b t)]\<rparr>)
           else (Inr r, s\<lparr>trace := trace s @ [Sent (helper_request e s v q ps b t)]\<rparr>)))"
  by (simp add: auth_req_def send_checked_unfold check_req_cases split: option.splits)

lemma send_checked_state:
  "snd (send_checked e v q ps b t s) = s\<lparr>trace := trace s @ [Sent (helper_request e s v q ps b t)]\<rparr>"
  by (simp add: send_checked_unfold split: option.splits sum.splits)

lemma auth_req_bounds:
  "length (helper_requests (new_events s (snd (auth_req e (send_checked e v q ps b t) s)))) \<le> 2
   \<and> count_list (new_events s (snd (auth_req e (send_checked e v q ps b t) s))) LoginCalled \<le> 1"
proof (cases "transport e (history (trace s)) (helper_request e s v q ps b t)")
  case None
  then show ?thesis by (simp add: auth_req_unfold)
next
  case (Some r)
  let ?s1 = "s\<lparr>trace := trace s @ [Sent (helper_request e s v q ps b t)]\<rparr>"
  show ?thesis
  proof (cases "status_code r \<in> {403, 498, 499}")
    case False
    with Some show ?thesis by (simp add: auth_req_unfold)
  next
    case True
    obtain y s2 where lg: "login e ?s1 = (y, s2)" by (cases "login e ?s1")
    from login_trace [OF lg] obtain evs where
      tr: "trace s2 = trace s @ Sent (helper_request e s v q ps b t) # LoginCalled # evs"
      and no: "LoginCalled \<notin> set evs" and hr: "helper_requests evs = []"
      by auto
    show ?thesis
    proof (cases y)
      case (Inl x)
      with Some True lg tr no hr show ?thesis
        by (simp add: auth_req_unfold new_events_def count_list_0_iff)
    next
      case (Inr u)
      with Some True lg have "snd (auth_req e (send_checked e v q ps b t) s)
           = s2\<lparr>trace := trace s2 @ [Sent (helper_request e s2 v q ps b t)]\<rparr>"
        by (simp add: auth_req_unfold send_checked_state)
      with tr no hr show ?thesis
        by (simp add: new_events_def count_list_0_iff)
    qed
  qed
qed

section \<open>No second retry\<close>

text \<open>
  Claim C2. In every call of a verb helper the helper's request is sent at most twice and
  \<open>login()\<close> is entered at most once. If the answer to the first request has a status in
  \<open>{403, 498, 499}\<close>, the login that follows succeeds, and the answer to the request sent
  again is a failure (status in 400..599), the helper raises that second failure as it
  is: \<open>AuthError\<close> for a status in \<open>{403, 498, 499}\<close>, \<open>HTTPError\<close> otherwise. In that
  case \<open>login()\<close> was entered exactly once and the helper's request was sent exactly twice,
  the second time with the refreshed header and otherwise unchanged.
\<close>

theorem retry_once_then_fail:
  "length (helper_requests (new_events s (snd (auth_req e (send_checked e v q ps b t) s)))) \<le> 2
   \<and> count_list (new_events s (snd (auth_req e (send_checked e v q ps b t) s))) LoginCalled \<le> 1
   \<and> (transport e (history (trace s)) (helper_request e s v q ps b t) = Some r1
      \<and> status_code r1 \<in> {403, 498, 499}
      \<and> login e (s\<lparr>trace := trace s @ [Sent (helper_request e s v q ps b t)]\<rparr>) = (Inr (), s2)
      \<and> transport e (history (trace s2)) (helper_request e s2 v q ps b t) = Some r2
      \<and> 400 \<le> status_code r2 \<and> status_code r2 < 600
      \<longrightarrow> auth_req e (send_checked e v q ps b t) s
            = (Inl (if status_code r2 \<in> {403, 498, 499} then AuthError (check_msg r2)
                    else HTTPError (check_msg r2)),
               s2\<lparr>trace := trace s2 @ [Sent (helper_request e s2 v q ps b t)]\<rparr>)
        \<and> count_list (new_events s (snd (auth_req e (send_checked e v q ps b t) s))) LoginCalled = 1
        \<and> helper_requests (new_events s (snd (auth_req e (send_checked e v q ps b t) s)))
            = [helper_request e s v q ps b t,
               (helper_request e s v q ps b t)\<lparr>authorization := s_authorization s2\<rparr>])"
proof -
  let ?s1 = "s\<lparr>trace := trace s @ [Sent (helper_request e s v q ps b t)]\<rparr>"
  let ?res = "auth_req e (send_checked e v q ps b t) s"
  {
    assume first: "transport e (history (trace s)) (helper_request e s v q ps b t) = Some r1"
      and expired: "status_code r1 \<in> {403, 498, 499}"
      and relogin: "login e ?s1 = (Inr (), s2)"
      and second: "transport e (history (trace s2)) (helper_request e s2 v q ps b t) = Some r2"
      and bad: "400 \<le> status_code r2" "status_code r2 < 600"
    from login_trace [OF relogin] obtain evs where
      tr: "trace s2 = trace s @ Sent (helper_request e s v q ps b t) # LoginCalled # evs"
      and no: "LoginCalled \<notin> set evs" and hr: "helper_requests evs = []"
      and u: "url s2 = url s"
      by auto
    have res: "?res = (Inl (if status_code r2 \<in> {403, 498, 499} then AuthError (check_msg r2)
                            else HTTPError (check_msg r2)),
                       s2\<lparr>trace := trace s2 @ [Sent (helper_request e s2 v q ps b t)]\<rparr>)"
      using first expired relogin second bad
      by (simp add: auth_req_unfold send_checked_unfold check_req_cases)
    have same: "helper_request e s2 v q ps b t
                  = (helper_request e s v q ps b t)\<lparr>authorization := s_authorization s2\<rparr>"
      by (simp add: helper_request_def u)
    have cnt: "count_list (new_events s (snd ?res)) LoginCalled = 1"
      using tr no by (simp add: res new_events_def count_list_0_iff)
    have hrs: "helper_requests (new_events s (snd ?res))
                 = [helper_request e s v q ps b t, helper_request e s2 v q ps b t]"
      using tr hr by (simp add: res new_events_def)
    note res cnt hrs same
  }
  then show ?thesis
    using auth_req_bounds [of s e v q ps b t] by metis
qed

theorem retry_once_then_fail_witness:
  "fst (priv_put (scripted [reply 499 ''expired'', reply 200 [], reply 200 ''tok-2'',
                            reply 403 ''still expired''])
          fresh ''repair_run/7/state/PAUSED'' [] [] (PInt 10))
     = Inl (AuthError ''URL: http://reaper/, Status: 403, Text: still expired'')
   \<and> count_list (new_events fresh
                   (snd (priv_put (scripted [reply 499 ''expired'', reply 200 [],
                                             reply 200 ''tok-2'', reply 403 ''still expired''])
                           fresh ''repair_run/7/state/PAUSED'' [] [] (PInt 10)))) LoginCalled = 1
   \<and> length (helper_requests (new_events fresh
                   (snd (priv_put (scripted [reply 499 ''expired'', reply 200 [],
                                             reply 200 ''tok-2'', reply 403 ''still expired''])
                           fresh ''repair_run/7/state/PAUSED'' [] [] (PInt 10))))) = 2"
proof -
  let ?e = "scripted [reply 499 ''expired'', reply 200 [], reply 200 ''tok-2'',
                      reply 403 ''still expired'']"
  let ?rq = "helper_request ?e fresh PUT ''repair_run/7/state/PAUSED'' [] (Data []) (PInt 10)"
  let ?s1 = "fresh\<lparr>trace := trace fresh @ [Sent ?rq]\<rparr>"
  let ?s2 = "snd (login ?e ?s1)"
  let ?r1 = "\<lparr>resp_url = ''http://reaper/'', status_code = 499, resp_text = ''expired''\<rparr>"
  let ?r2 = "\<lparr>resp_url = ''http://reaper/'', status_code = 403, resp_text = ''still expired''\<rparr>"
  have h1: "transport ?e (history (trace fresh)) ?rq = Some ?r1"
    by (simp add: scripted_def reply_def fresh_def)
  have h2: "status_code ?r1 \<in> {403, 498, 499}" by simp
  have "fst (login ?e ?s1) = Inr ()"
    by (simp add: login_unfold scripted_def reply_def fresh_def check_req_cases history_append)
  then have h3: "login ?e ?s1 = (Inr (), ?s2)"
    by (metis prod.collapse)
  have h4: "transport ?e (history (trace ?s2))
              (helper_request ?e ?s2 PUT ''repair_run/7/state/PAUSED'' [] (Data []) (PInt 10))
              = Some ?r2"
    by (simp add: login_unfold scripted_def reply_def fresh_def check_req_cases history_append)
  have h5: "400 \<le> status_code ?r2 \<and> status_code ?r2 < 600" by simp
  have msg: "check_msg ?r2 = ''URL: http://reaper/, Status: 403, Text: still expired''"
    by (simp add: check_msg_def str_int_def digit_def)
  let ?res = "auth_req ?e (send_checked ?e PUT ''repair_run/7/state/PAUSED'' [] (Data []) (PInt 10)) fresh"
  from retry_once_then_fail [of fresh ?e PUT "''repair_run/7/state/PAUSED''" "[]" "Data []"
                                "PInt 10" ?r1 ?s2 ?r2] h1 h2 h3 h4 h5
  have all: "?res = (Inl (if status_code ?r2 \<in> {403, 498, 499} then AuthError (check_msg ?r2)
                          else HTTPError (check_msg ?r2)),
                     ?s2\<lparr>trace := trace ?s2 @ [Sent (helper_request ?e ?s2 PUT
                             ''repair_run/7/state/PAUSED'' [] (Data []) (PInt 10))]\<rparr>)
        \<and> count_list (new_events fresh (snd ?res)) LoginCalled = 1
        \<and> helper_requests (new_events fresh (snd ?res))
            = [?rq, ?rq\<lparr>authorization := s_authorization ?s2\<rparr>]"
    by blast
  from all have "?res = (Inl (if status_code ?r2 \<in> {403, 498, 499} then AuthError (check_msg ?r2)
                          else HTTPError (check_msg ?r2)),
                     ?s2\<lparr>trace := trace ?s2 @ [Sent (helper_request ?e ?s2 PUT
                             ''repair_run/7/state/PAUSED'' [] (Data []) (PInt 10))]\<rparr>)"
    by blast
  then have a: "fst ?res = Inl (AuthError ''URL: http://reaper/, Status: 403, Text: still expired'')"
    by (simp add: msg)
  from all have b: "count_list (new_events fresh (snd ?res)) LoginCalled = 1"
    by blast
  from all have "helper_requests (new_events fresh (snd ?res))
            = [?rq, ?rq\<lparr>authorization := s_authorization ?s2\<rparr>]"
    by blast
  then have "length (helper_requests (new_events fresh (snd ?res)))
            = length [?rq, ?rq\<lparr>authorization := s_authorization ?s2\<rparr>]"
    by (rule arg_cong)
  then have c: "length (helper_requests (new_events fresh (snd ?res))) = 2"
    by simp
  show ?thesis
    unfolding priv_put_def using a b c by blast
qed

section \<open>Classification of responses\<close>

text \<open>
  Claim C3, as the code has it. For every status code from 100 to 599 the check has
  exactly one of three outcomes: it passes for every status below 400 (not only for 200
  to 299, since \<open>Response.ok\<close> holds for every status outside 400..599), it raises
  \<open>AuthError\<close> exactly for the statuses 403, 498 and 499, and it raises \<open>HTTPError\<close> exactly
  for the other statuses from 400 on; 401 raises \<open>HTTPError\<close>.
\<close>

theorem check_req_classes:
  assumes "100 \<le> status_code r" and "status_code r \<le> 599"
  shows "(check_req r = Inr () \<or> check_req r = Inl (AuthError (check_msg r))
            \<or> check_req r = Inl (HTTPError (check_msg r)))
       \<and> (check_req r = Inr () \<longleftrightarrow> status_code r < 400)
       \<and> (check_req r = Inl (AuthError (check_msg r)) \<longleftrightarrow> status_code r \<in> {403, 498, 499})
       \<and> (check_req r = Inl (HTTPError (check_msg r))
            \<longleftrightarrow> 400 \<le> status_code r \<and> status_code r \<notin> {403, 498, 499})
       \<and> (status_code r = 401 \<longrightarrow> check_req r = Inl (HTTPError (check_msg r)))"
  using assms by (auto simp: check_req_cases)

theorem check_req_classes_witness:
  "check_req \<lparr>resp_url = ''http://reaper/cluster'', status_code = 401, resp_text = ''denied''\<rparr>
     = Inl (HTTPError (check_msg \<lparr>resp_url = ''http://reaper/cluster'', status_code = 401,
                                   resp_text = ''denied''\<rparr>))"
  using check_req_classes [of "\<lparr>resp_url = ''http://reaper/cluster'', status_code = 401,
                                 resp_text = ''denied''\<rparr>"]
  by simp

text \<open>The claim as written fails at status 304: it is not in 200..299, and the check
  passes, so the response counts as Ok and not as HttpError.\<close>

theorem check_req_304_counterexample:
  "(100::int) \<le> 304 \<and> (304::int) \<le> 599 \<and> \<not> ((200::int) \<le> 304 \<and> (304::int) \<le> 299)
   \<and> check_req \<lparr>resp_url = ''http://reaper/cluster'', status_code = 304, resp_text = ''''\<rparr>
       = Inr ()"
  by (simp add: check_req_cases)

section \<open>Password update\<close>

text \<open>
  Claim C7. \<open>update_password\<close> replaces the stored password and nothing else: no event is
  added (no request is sent and \<open>login()\<close> is not entered), and the token, the
  \<open>Authorization\<close> header, the URL, the user and the verification setting are unchanged.
\<close>

theorem update_password_frame:
  "update_password s p = s\<lparr>password := p\<rparr>
   \<and> password (update_password s p) = p
   \<and> trace (update_password s p) = trace s
   \<and> new_events s (update_password s p) = []
   \<and> token (update_password s p) = token s
   \<and> s_authorization (update_password s p) = s_authorization s
   \<and> url (update_password s p) = url s
   \<and> user (update_password s p) = user s
   \<and> s_verify (update_password s p) = s_verify s"
  by (simp add: update_password_def new_events_def)

section \<open>Login failures\<close>

text \<open>
  Claim C5, as the code has it. If the answer to the POST to \<open>/login\<close> has a status from
  400 to 599, \<open>login()\<close> raises (\<open>AuthError\<close> for 403, 498 and 499, \<open>HTTPError\<close> otherwise)
  and its only request is that POST: no GET to \<open>/jwt\<close> is sent. Whenever \<open>login()\<close> raises,
  it was entered once and not again, the token, the header and the password are as
  before, and the failure reaches the caller as it is: from the retry wrapper (which does
  not call the wrapped function again) and from the constructor.
\<close>

theorem login_failure_propagates:
  "(transport e (history (trace s)) (login_post e s) = Some r
      \<and> 400 \<le> status_code r \<and> status_code r < 600
      \<longrightarrow> login e s
            = (Inl (if status_code r \<in> {403, 498, 499} then AuthError (check_msg r)
                    else HTTPError (check_msg r)),
               s\<lparr>trace := trace s @ [LoginCalled, Sent (login_post e s)]\<rparr>))
   \<and> (login e s = (Inl x, s')
      \<longrightarrow> count_list (new_events s s') LoginCalled = 1
        \<and> token s' = token s \<and> s_authorization s' = s_authorization s
        \<and> password s' = password s
        \<and> (\<forall>func s0 m. func s0 = (Inl (AuthError m), s)
              \<longrightarrow> auth_req e func s0 = (Inl x, s'))
        \<and> (s = \<lparr>url = u, s_verify = vs, s_authorization = None, user = usr, password = pw,
                 token = [], trace = tr\<rparr>
              \<longrightarrow> init e tr u usr pw vs True = (Inl x, s')))"
proof -
  have a: "transport e (history (trace s)) (login_post e s) = Some r
      \<and> 400 \<le> status_code r \<and> status_code r < 600
      \<longrightarrow> login e s
            = (Inl (if status_code r \<in> {403, 498, 499} then AuthError (check_msg r)
                    else HTTPError (check_msg r)),
               s\<lparr>trace := trace s @ [LoginCalled, Sent (login_post e s)]\<rparr>)"
    by (simp add: login_unfold check_req_cases)
  {
    assume lg: "login e s = (Inl x, s')"
    have b1: "count_list (new_events s s') LoginCalled = 1"
      using login_trace [OF lg] by (auto simp: new_events_def count_list_0_iff)
    have b2: "token s' = token s \<and> s_authorization s' = s_authorization s
              \<and> password s' = password s"
      using lg by (auto simp: login_unfold split: option.splits sum.splits)
    have b3: "\<forall>func s0 m. func s0 = (Inl (AuthError m), s)
                \<longrightarrow> auth_req e func s0 = (Inl x, s')"
      using lg by (simp add: auth_req_def)
    have b4: "s = \<lparr>url = u, s_verify = vs, s_authorization = None, user = usr, password = pw,
                   token = [], trace = tr\<rparr>
              \<longrightarrow> init e tr u usr pw vs True = (Inl x, s')"
      using lg by (auto simp: init_def)
    note b1 b2 b3 b4
  }
  with a show ?thesis by blast
qed

theorem login_failure_propagates_witness:
  "login (scripted [reply 500 ''down'']) fresh
     = (Inl (HTTPError (check_msg \<lparr>resp_url = ''http://reaper/'', status_code = 500,
                                    resp_text = ''down''\<rparr>)),
        fresh\<lparr>trace := trace fresh @ [LoginCalled, Sent (login_post (scripted [reply 500 ''down'']) fresh)]\<rparr>)
   \<and> init (scripted [reply 500 ''down'']) [] ''http://reaper/'' ''admin'' ''secret'' True True
     = (Inl (HTTPError (check_msg \<lparr>resp_url = ''http://reaper/'', status_code = 500,
                                    resp_text = ''down''\<rparr>)),
        fresh\<lparr>trace := trace fresh @ [LoginCalled, Sent (login_post (scripted [reply 500 ''down'']) fresh)]\<rparr>)"
proof -
  let ?e = "scripted [reply 500 ''down'']"
  let ?r = "\<lparr>resp_url = ''http://reaper/'', status_code = 500, resp_text = ''down''\<rparr>"
  let ?s' = "fresh\<lparr>trace := trace fresh @ [LoginCalled, Sent (login_post ?e fresh)]\<rparr>"
  have h1: "transport ?e (history (trace fresh)) (login_post ?e fresh) = Some ?r"
    by (simp add: scripted_def reply_def fresh_def)
  have h2: "400 \<le> status_code ?r \<and> status_code ?r < 600" by simp
  have h3: "fresh = \<lparr>url = ''http://reaper/'', s_verify = True, s_authorization = None,
                    user = ''admin'', password = ''secret'', token = [], trace = []\<rparr>"
    by (simp add: fresh_def)
  from login_failure_propagates [of ?e fresh ?r "HTTPError (check_msg ?r)" ?s'
         "''http://reaper/''" True "''admin''" "''secret''" "[]"] h1 h2
  have lg: "login ?e fresh = (Inl (if status_code ?r \<in> {403, 498, 499} then AuthError (check_msg ?r)
                                  else HTTPError (check_msg ?r)), ?s')"
    by blast
  then have lg': "login ?e fresh = (Inl (HTTPError (check_msg ?r)), ?s')"
    by simp
  from login_failure_propagates [of ?e fresh ?r "HTTPError (check_msg ?r)" ?s'
         "''http://reaper/''" True "''admin''" "''secret''" "[]"] lg' h3
  have "init ?e [] ''http://reaper/'' ''admin'' ''secret'' True True
          = (Inl (HTTPError (check_msg ?r)), ?s')"
    by blast
  with lg' show ?thesis by blast
qed

text \<open>The claim as written fails when \<open>/login\<close> answers 300: the status is not in
  200..299, yet \<open>login()\<close> goes on to the GET to \<open>/jwt\<close> and succeeds.\<close>

theorem login_300_counterexample:
  "\<not> ((200::int) \<le> 300 \<and> (300::int) \<le> 299)
   \<and> fst (login (scripted [reply 300 ''choices'', reply 200 ''tok-1'']) fresh) = Inr ()
   \<and> history (trace (snd (login (scripted [reply 300 ''choices'', reply 200 ''tok-1'']) fresh)))
       = [login_post (scripted [reply 300 ''choices'', reply 200 ''tok-1'']) fresh,
          login_get (scripted [reply 300 ''choices'', reply 200 ''tok-1'']) fresh]"
  by (simp add: login_unfold scripted_def reply_def fresh_def check_req_cases history_append)

section \<open>The header follows the token\<close>

lemma attach_ok_append:
  "attach_ok h (xs @ ys) = (attach_ok h xs \<and> attach_ok (auth_after h xs) ys)"
  by (induction h xs rule: attach_ok.induct) simp_all

lemma auth_after_append: "auth_after h (xs @ ys) = auth_after (auth_after h xs) ys"
  by (induction h xs rule: auth_after.induct) simp_all

lemma token_after_append: "token_after tk (xs @ ys) = token_after (token_after tk xs) ys"
  by (induction tk xs rule: token_after.induct) simp_all

lemma no_LoginDone_after:
  "\<not> list_ex is_LoginDone evs \<Longrightarrow> auth_after h evs = h \<and> token_after tk evs = tk"
  by (induction h evs arbitrary: tk rule: auth_after.induct) simp_all

lemma effect_refl: "effect s s"
  by (simp add: effect_def)

lemma effect_trans: "effect s s1 \<Longrightarrow> effect s1 s2 \<Longrightarrow> effect s s2"
  unfolding effect_def
  by (elim conjE exE, intro conjI, rule_tac x = "evs @ evsa" in exI)
     (simp_all add: attach_ok_append auth_after_append token_after_append)

lemma effect_new_events:
  assumes "effect s s'"
  shows "trace s' = trace s @ new_events s s'"
    and "attach_ok (s_authorization s) (new_events s s')"
    and "s_authorization s' = auth_after (s_authorization s) (new_events s s')"
    and "token s' = token_after (token s) (new_events s s')"
  using assms by (auto simp: effect_def new_events_def)

lemma login_effect: "effect s (snd (login e s))"
  by (simp add: login_unfold effect_def login_post_def login_get_def
           split: option.splits sum.splits)

lemma login_password: "password (snd (login e s)) = password s"
  by (simp add: login_unfold split: option.splits sum.splits)

lemma send_checked_effect: "effect s (snd (send_checked e v q ps b t s))"
  by (simp add: send_checked_state effect_def helper_request_def)

lemma send_checked_password: "password (snd (send_checked e v q ps b t s)) = password s"
  by (simp add: send_checked_state)

lemma auth_req_snd:
  "snd (auth_req e (send_checked e v q ps b t) s) = snd (send_checked e v q ps b t s)
   \<or> snd (auth_req e (send_checked e v q ps b t) s) = snd (login e (snd (send_checked e v q ps b t s)))
   \<or> snd (auth_req e (send_checked e v q ps b t) s)
       = snd (send_checked e v q ps b t (snd (login e (snd (send_checked e v q ps b t s)))))"
  by (simp add: auth_req_def split: prod.splits sum.splits error.splits)

lemma auth_req_effect: "effect s (snd (auth_req e (send_checked e v q ps b t) s))"
proof -
  let ?s1 = "snd (send_checked e v q ps b t s)"
  let ?s2 = "snd (login e ?s1)"
  have a: "effect s ?s1" by (rule send_checked_effect)
  have b: "effect s ?s2" by (rule effect_trans [OF a login_effect])
  have c: "effect s (snd (send_checked e v q ps b t ?s2))"
    by (rule effect_trans [OF b send_checked_effect])
  from auth_req_snd [of e v q ps b t s] a b c show ?thesis
    by (elim disjE) simp_all
qed

lemma auth_req_password:
  "password (snd (auth_req e (send_checked e v q ps b t) s)) = password s"
  using auth_req_snd [of e v q ps b t s]
  by (elim disjE) (simp_all add: login_password send_checked_password)

lemma exec_effect: "effect s (exec e s c)"
proof (cases c)
  case CallLogin
  then show ?thesis by (simp add: login_effect)
next
  case (CallUpdatePassword p)
  then show ?thesis by (simp add: update_password_def effect_def)
next
  case (CallGet q ps t)
  then show ?thesis by (simp add: priv_get_def auth_req_effect)
next
  case (CallDelete q ps t)
  then show ?thesis by (simp add: priv_delete_def auth_req_effect)
next
  case (CallPost q ps d t)
  then show ?thesis by (simp add: priv_post_def auth_req_effect)
next
  case (CallPut q ps d t)
  then show ?thesis by (simp add: priv_put_def auth_req_effect)
next
  case (CallPatch q ps js t)
  then show ?thesis by (simp add: priv_patch_def auth_req_effect)
qed

lemma run_effect: "effect s (run e s cs)"
proof (induction cs arbitrary: s)
  case Nil
  show ?case by (simp add: effect_refl)
next
  case (Cons c cs)
  have "effect s (exec e s c)" by (rule exec_effect)
  moreover have "effect (exec e s c) (run e (exec e s c) cs)" by (rule Cons.IH)
  ultimately show ?case by (simp add: effect_trans [of s "exec e s c"])
qed

text \<open>
  Claim C4, as the code has it. After a successful \<open>login()\<close> the stored token is the body
  text of the answer to the GET to \<open>/jwt\<close> (empty when that body is empty), the session's
  \<open>Authorization\<close> header is \<open>Bearer\<close> followed by that token, and along every sequence of
  later calls on the session each request carries that header until the next successful
  login, from which on each request carries the header of the new token. On a session
  just constructed, with or without the login at construction, no request carries an
  \<open>Authorization\<close> header before the first successful login.
\<close>

theorem bearer_attached:
  "(login e s = (Inr (), s1)
      \<longrightarrow> (\<exists>r2. transport e (history (trace s) @ [login_post e s]) (login_get e s) = Some r2
                \<and> token s1 = resp_text r2)
        \<and> s_authorization s1 = Some (''Bearer '' @ token s1)
        \<and> attach_ok (Some (''Bearer '' @ token s1)) (new_events s1 (run e s1 cs)))
   \<and> (init e tr u usr pw vs dl = (Inr (), s0)
      \<longrightarrow> attach_ok None (drop (length tr) (trace (run e s0 cs))))"
proof -
  {
    assume lg: "login e s = (Inr (), s1)"
    have a: "\<exists>r2. transport e (history (trace s) @ [login_post e s]) (login_get e s) = Some r2
                \<and> token s1 = resp_text r2"
      using lg by (auto simp: login_unfold split: option.splits sum.splits)
    have b: "s_authorization s1 = Some (''Bearer '' @ token s1)"
      using lg by (auto simp: login_unfold split: option.splits sum.splits)
    have "attach_ok (s_authorization s1) (new_events s1 (run e s1 cs))"
      by (rule effect_new_events(2) [OF run_effect])
    with b have c: "attach_ok (Some (''Bearer '' @ token s1)) (new_events s1 (run e s1 cs))"
      by simp
    note a b c
  }
  moreover
  {
    assume ini: "init e tr u usr pw vs dl = (Inr (), s0)"
    let ?f = "\<lparr>url = u, s_verify = vs, s_authorization = None, user = usr, password = pw,
               token = [], trace = tr\<rparr>"
    have "s0 = snd (login e ?f) \<or> s0 = ?f"
      using ini by (cases dl) (auto simp: init_def Let_def)
    then have "effect ?f s0"
      using login_effect [of ?f e] effect_refl [of ?f] by auto
    then have "effect ?f (run e s0 cs)"
      by (rule effect_trans) (rule run_effect)
    from effect_new_events(2) [OF this]
    have "attach_ok None (drop (length tr) (trace (run e s0 cs)))"
      by (simp add: new_events_def)
  }
  ultimately show ?thesis by blast
qed

theorem bearer_attached_witness:
  "s_authorization (snd (login (scripted [reply 200 [], reply 200 ''abc'', reply 200 ''[c1,c2]'']) fresh))
     = Some ''Bearer abc''
   \<and> attach_ok (Some ''Bearer abc'')
        (new_events (snd (login (scripted [reply 200 [], reply 200 ''abc'', reply 200 ''[c1,c2]'']) fresh))
           (run (scripted [reply 200 [], reply 200 ''abc'', reply 200 ''[c1,c2]''])
              (snd (login (scripted [reply 200 [], reply 200 ''abc'', reply 200 ''[c1,c2]'']) fresh))
              [CallGet ''cluster'' [] (PInt 10)]))
   \<and> map authorization
        (history (new_events (snd (login (scripted [reply 200 [], reply 200 ''abc'', reply 200 ''[c1,c2]'']) fresh))
           (run (scripted [reply 200 [], reply 200 ''abc'', reply 200 ''[c1,c2]''])
              (snd (login (scripted [reply 200 [], reply 200 ''abc'', reply 200 ''[c1,c2]'']) fresh))
              [CallGet ''cluster'' [] (PInt 10)])))
       = [Some ''Bearer abc'']"
proof -
  let ?e = "scripted [reply 200 [], reply 200 ''abc'', reply 200 ''[c1,c2]'']"
  let ?s1 = "snd (login ?e fresh)"
  let ?cs = "[CallGet ''cluster'' [] (PInt 10)]"
  have "fst (login ?e fresh) = Inr ()"
    by (simp add: login_unfold scripted_def reply_def fresh_def check_req_cases history_append)
  then have h: "login ?e fresh = (Inr (), ?s1)"
    by (metis prod.collapse)
  have tk: "token ?s1 = ''abc''"
    by (simp add: login_unfold scripted_def reply_def fresh_def check_req_cases history_append)
  from bearer_attached [of ?e fresh ?s1 ?cs] h
  have "s_authorization ?s1 = Some (''Bearer '' @ token ?s1)
        \<and> attach_ok (Some (''Bearer '' @ token ?s1)) (new_events ?s1 (run ?e ?s1 ?cs))"
    by blast
  then have a: "s_authorization ?s1 = Some ''Bearer abc''
        \<and> attach_ok (Some ''Bearer abc'') (new_events ?s1 (run ?e ?s1 ?cs))"
    unfolding tk by simp
  have b: "map authorization (history (new_events ?s1 (run ?e ?s1 ?cs))) = [Some ''Bearer abc'']"
    by (simp add: priv_get_def auth_req_unfold helper_request_def new_events_def
          login_unfold scripted_def reply_def fresh_def check_req_cases history_append)
  from a b show ?thesis by blast
qed

text \<open>The claim as written fails when \<open>/jwt\<close> answers 200 with an empty body: the login
  succeeds and the stored token is empty.\<close>

theorem empty_token_counterexample:
  "fst (login (scripted [reply 200 [], reply 200 []]) fresh) = Inr ()
   \<and> token (snd (login (scripted [reply 200 [], reply 200 []]) fresh)) = []"
  by (simp add: login_unfold scripted_def reply_def fresh_def check_req_cases history_append)

section \<open>Only a successful login changes the token\<close>

text \<open>
  Claim C10. A call of a verb helper never changes the stored password, and it changes
  the token and the \<open>Authorization\<close> header only by a successful login inside the call: if
  no login succeeds during the call, whatever the call returns or raises, the token and
  the header are as before. The undecorated helper changes nothing but the list of
  events, \<open>update_password\<close> leaves the token and the header alone, and along any sequence
  of calls the token and the header are those set by the last successful login, or the
  initial ones when there is none.
\<close>

theorem only_login_sets_token:
  "password (snd (auth_req e (send_checked e v q ps b t) s)) = password s
   \<and> (\<not> list_ex is_LoginDone (new_events s (snd (auth_req e (send_checked e v q ps b t) s)))
      \<longrightarrow> token (snd (auth_req e (send_checked e v q ps b t) s)) = token s
        \<and> s_authorization (snd (auth_req e (send_checked e v q ps b t) s)) = s_authorization s)
   \<and> snd (send_checked e v q ps b t s)
       = s\<lparr>trace := trace s @ [Sent (helper_request e s v q ps b t)]\<rparr>
   \<and> token (update_password s p) = token s
   \<and> s_authorization (update_password s p) = s_authorization s
   \<and> token (run e s cs) = token_after (token s) (new_events s (run e s cs))
   \<and> s_authorization (run e s cs) = auth_after (s_authorization s) (new_events s (run e s cs))"
proof -
  let ?s' = "snd (auth_req e (send_checked e v q ps b t) s)"
  have eff: "effect s ?s'" by (rule auth_req_effect)
  have a: "password ?s' = password s" by (rule auth_req_password)
  have b: "\<not> list_ex is_LoginDone (new_events s ?s')
           \<longrightarrow> token ?s' = token s \<and> s_authorization ?s' = s_authorization s"
    using effect_new_events(3,4) [OF eff] no_LoginDone_after by metis
  have c: "snd (send_checked e v q ps b t s)
             = s\<lparr>trace := trace s @ [Sent (helper_request e s v q ps b t)]\<rparr>"
    by (rule send_checked_state)
  have d: "token (update_password s p) = token s
           \<and> s_authorization (update_password s p) = s_authorization s"
    by (simp add: update_password_def)
  have f: "token (run e s cs) = token_after (token s) (new_events s (run e s cs))
           \<and> s_authorization (run e s cs)
               = auth_after (s_authorization s) (new_events s (run e s cs))"
    using effect_new_events(3,4) [OF run_effect] by simp
  from a b c d f show ?thesis by blast
qed

theorem only_login_sets_token_witness:
  "fst (priv_delete (scripted [reply 200 [], reply 200 ''abc'', reply 500 ''boom''])
          (snd (login (scripted [reply 200 [], reply 200 ''abc'', reply 500 ''boom'']) fresh))
          ''cluster/c1'' [(''force'', PBool False)] (PInt 10))
     = Inl (HTTPError ''URL: http://reaper/, Status: 500, Text: boom'')
   \<and> token (snd (priv_delete (scripted [reply 200 [], reply 200 ''abc'', reply 500 ''boom''])
          (snd (login (scripted [reply 200 [], reply 200 ''abc'', reply 500 ''boom'']) fresh))
          ''cluster/c1'' [(''force'', PBool False)] (PInt 10)))
     = ''abc''
   \<and> s_authorization (snd (priv_delete (scripted [reply 200 [], reply 200 ''abc'', reply 500 ''boom''])
          (snd (login (scripted [reply 200 [], reply 200 ''abc'', reply 500 ''boom'']) fresh))
          ''cluster/c1'' [(''force'', PBool False)] (PInt 10)))
     = Some ''Bearer abc''
   \<and> password (snd (priv_delete (scripted [reply 200 [], reply 200 ''abc'', reply 500 ''boom''])
          (snd (login (scripted [reply 200 [], reply 200 ''abc'', reply 500 ''boom'']) fresh))
          ''cluster/c1'' [(''force'', PBool False)] (PInt 10)))
     = ''secret''"
proof -
  let ?e = "scripted [reply 200 [], reply 200 ''abc'', reply 500 ''boom'']"
  let ?s1 = "snd (login ?e fresh)"
  let ?ps = "[(''force'', PBool False)]"
  let ?res = "auth_req ?e (send_checked ?e DELETE ''cluster/c1'' ?ps NoBody (PInt 10)) ?s1"
  have s1: "token ?s1 = ''abc''" "s_authorization ?s1 = Some ''Bearer abc''"
           "password ?s1 = ''secret''"
    by (simp_all add: login_unfold scripted_def reply_def fresh_def check_req_cases history_append)
  have r: "fst ?res = Inl (HTTPError ''URL: http://reaper/, Status: 500, Text: boom'')"
    by (simp add: auth_req_unfold login_unfold scripted_def reply_def fresh_def check_req_cases
          history_append check_msg_def str_int_def digit_def)
  have h: "\<not> list_ex is_LoginDone (new_events ?s1 (snd ?res))"
    by (simp add: auth_req_unfold login_unfold scripted_def reply_def fresh_def check_req_cases
          history_append new_events_def)
  from only_login_sets_token [of ?e DELETE "''cluster/c1''" ?ps NoBody "PInt 10" ?s1] h
  have "password (snd ?res) = password ?s1 \<and> token (snd ?res) = token ?s1
        \<and> s_authorization (snd ?res) = s_authorization ?s1"
    by blast
  with s1 r show ?thesis
    unfolding priv_delete_def by simp
qed

section \<open>The requests of a call\<close>

lemma effect_new_events_trans:
  assumes "effect s s1" and "effect s1 s2"
  shows "new_events s s2 = new_events s s1 @ new_events s1 s2"
  using assms by (auto simp: effect_def new_events_def)

lemma login_requests:
  "set (history (new_events s (snd (login e s)))) \<subseteq> {login_post e s, login_get e s}"
  by (simp add: login_unfold split: option.splits sum.splits)

lemma login_url: "url (snd (login e s)) = url s"
  by (simp add: login_unfold split: option.splits sum.splits)

lemma send_checked_requests:
  "history (new_events s (snd (send_checked e v q ps b t s))) = [helper_request e s v q ps b t]"
  by (simp add: send_checked_state)

text \<open>The requests of a decorated helper: its own request first, then those of a login
  and its own request once more, if any.\<close>

lemma auth_req_requests:
  "\<exists>rest. history (new_events s (snd (auth_req e (send_checked e v q ps b t) s)))
            = helper_request e s v q ps b t # rest
          \<and> (\<forall>rq \<in> set rest.
                (verb rq = v \<and> req_url rq = urljoin e (url s) q \<and> params rq = Some ps
                 \<and> body rq = b \<and> timeout rq = Some t)
              \<or> (verb rq = POST \<and> params rq = None \<and> timeout rq = None)
              \<or> (verb rq = GET \<and> params rq = None \<and> timeout rq = None))"
proof -
  let ?f = "send_checked e v q ps b t"
  let ?s1 = "snd (?f s)"
  let ?s2 = "snd (login e ?s1)"
  let ?s3 = "snd (?f ?s2)"
  let ?P = "\<lambda>rq. (verb rq = v \<and> req_url rq = urljoin e (url s) q \<and> params rq = Some ps
                 \<and> body rq = b \<and> timeout rq = Some t)
              \<or> (verb rq = POST \<and> params rq = None \<and> timeout rq = None)
              \<or> (verb rq = GET \<and> params rq = None \<and> timeout rq = None)"
  have e1: "effect s ?s1" by (rule send_checked_effect)
  have e2: "effect ?s1 ?s2" by (rule login_effect)
  have e3: "effect ?s2 ?s3" by (rule send_checked_effect)
  have e12: "effect s ?s2" by (rule effect_trans [OF e1 e2])
  have h1: "history (new_events s ?s1) = [helper_request e s v q ps b t]"
    by (rule send_checked_requests)
  have h2: "history (new_events s ?s2)
              = helper_request e s v q ps b t # history (new_events ?s1 ?s2)"
    by (simp add: effect_new_events_trans [OF e1 e2] history_append h1)
  have h3: "history (new_events s ?s3)
              = helper_request e s v q ps b t
                  # (history (new_events ?s1 ?s2) @ [helper_request e ?s2 v q ps b t])"
    by (simp add: effect_new_events_trans [OF e12 e3] history_append h2 send_checked_requests)
  have lg: "\<forall>rq \<in> set (history (new_events ?s1 ?s2)). ?P rq"
    using login_requests [of ?s1 e] by (auto simp: login_post_def login_get_def)
  have u: "url ?s2 = url s"
    by (simp add: login_url send_checked_state)
  have own: "?P (helper_request e ?s2 v q ps b t)"
    by (simp add: helper_request_def u)
  from auth_req_snd [of e v q ps b t s] show ?thesis
  proof (elim disjE)
    assume "snd (auth_req e ?f s) = ?s1"
    then show ?thesis by (simp add: h1)
  next
    assume "snd (auth_req e ?f s) = ?s2"
    then show ?thesis using lg by (simp add: h2)
  next
    assume "snd (auth_req e ?f s) = ?s3"
    then show ?thesis using lg own by (simp add: h3)
  qed
qed

lemma auth_req_helper_requests:
  "helper_requests (new_events s (snd (auth_req e (send_checked e v q ps b t) s))) \<noteq> []
   \<and> (\<forall>rq \<in> set (helper_requests (new_events s (snd (auth_req e (send_checked e v q ps b t) s)))).
         verb rq = v \<and> req_url rq = urljoin e (url s) q \<and> params rq = Some ps
         \<and> body rq = b \<and> timeout rq = Some t)"
proof -
  from auth_req_requests [of s e v q ps b t] obtain rest where
    h: "history (new_events s (snd (auth_req e (send_checked e v q ps b t) s)))
          = helper_request e s v q ps b t # rest"
    and r: "\<forall>rq \<in> set rest.
                (verb rq = v \<and> req_url rq = urljoin e (url s) q \<and> params rq = Some ps
                 \<and> body rq = b \<and> timeout rq = Some t)
              \<or> (verb rq = POST \<and> params rq = None \<and> timeout rq = None)
              \<or> (verb rq = GET \<and> params rq = None \<and> timeout rq = None)"
    by blast
  have own: "verb (helper_request e s v q ps b t) = v
             \<and> req_url (helper_request e s v q ps b t) = urljoin e (url s) q
             \<and> params (helper_request e s v q ps b t) = Some ps
             \<and> body (helper_request e s v q ps b t) = b
             \<and> timeout (helper_request e s v q ps b t) = Some t"
    by (simp add: helper_request_def)
  show ?thesis
    unfolding helper_requests_def h using r own
    by (auto simp: from_helper_def)
qed

lemma auth_req_sent_keys:
  "sent_keys s (snd (auth_req e (send_checked e v q ps b t) s)) = fst ` set ps"
  using auth_req_helper_requests [of s e v q ps b t]
  unfolding sent_keys_def param_keys_def
  by (cases "helper_requests (new_events s (snd (auth_req e (send_checked e v q ps b t) s)))")
     auto

lemma setitem_keys: "fst ` set (setitem d k v) = insert k (fst ` set d)"
  by (induction d k v rule: setitem.induct) auto

section \<open>Bodies by verb\<close>

text \<open>
  Claim C6, as the code has it. Every request that \<open>__post\<close> and \<open>__put\<close> send carries the
  caller's \<open>data\<close> as a form body, and every request that \<open>__patch\<close> sends carries the
  caller's \<open>json\<close> as a JSON body. \<open>__delete\<close> takes no payload: like \<open>__get\<close>, every
  request it sends has no body. Each helper sends at least one request.
\<close>

theorem body_by_verb:
  "helper_requests (new_events s (snd (priv_post e s q ps d t))) \<noteq> []
   \<and> (\<forall>rq \<in> set (helper_requests (new_events s (snd (priv_post e s q ps d t)))).
         verb rq = POST \<and> body rq = Data d)
   \<and> helper_requests (new_events s (snd (priv_put e s q ps d t))) \<noteq> []
   \<and> (\<forall>rq \<in> set (helper_requests (new_events s (snd (priv_put e s q ps d t)))).
         verb rq = PUT \<and> body rq = Data d)
   \<and> helper_requests (new_events s (snd (priv_patch e s q ps js t))) \<noteq> []
   \<and> (\<forall>rq \<in> set (helper_requests (new_events s (snd (priv_patch e s q ps js t)))).
         verb rq = PATCH \<and> body rq = Json js)
   \<and> helper_requests (new_events s (snd (priv_delete e s q ps t))) \<noteq> []
   \<and> (\<forall>rq \<in> set (helper_requests (new_events s (snd (priv_delete e s q ps t)))).
         verb rq = DELETE \<and> body rq = NoBody)
   \<and> helper_requests (new_events s (snd (priv_get e s q ps t))) \<noteq> []
   \<and> (\<forall>rq \<in> set (helper_requests (new_events s (snd (priv_get e s q ps t)))).
         verb rq = GET \<and> body rq = NoBody)"
  unfolding priv_post_def priv_put_def priv_patch_def priv_delete_def priv_get_def
  using auth_req_helper_requests [of s e POST q ps "Data d" t]
        auth_req_helper_requests [of s e PUT q ps "Data d" t]
        auth_req_helper_requests [of s e PATCH q ps "Json js" t]
        auth_req_helper_requests [of s e DELETE q ps NoBody t]
        auth_req_helper_requests [of s e GET q ps NoBody t]
  by blast

theorem body_by_verb_witness:
  "map body (helper_requests (new_events fresh
       (snd (priv_patch (scripted [reply 200 ''{owner:bob}'']) fresh ''repair_schedule/7'' []
               (PDict [(''owner'', PStr ''bob'')]) (PInt 10)))))
     = [Json (PDict [(''owner'', PStr ''bob'')])]"
proof -
  let ?e = "scripted [reply 200 ''{owner:bob}'']"
  let ?js = "PDict [(''owner'', PStr ''bob'')]"
  let ?hs = "helper_requests (new_events fresh
               (snd (priv_patch ?e fresh ''repair_schedule/7'' [] ?js (PInt 10))))"
  have len: "length ?hs = 1"
    by (simp add: priv_patch_def auth_req_unfold scripted_def reply_def fresh_def new_events_def)
  from body_by_verb [of fresh ?e "''repair_schedule/7''" "[]" "[]" "PInt 10" ?js]
  have "\<forall>rq \<in> set ?hs. verb rq = PATCH \<and> body rq = Json ?js"
    by blast
  then have "\<forall>b \<in> set (map body ?hs). b = Json ?js"
    by simp
  moreover have "length (map body ?hs) = 1"
    using len by simp
  ultimately show ?thesis
    by (cases "map body ?hs") auto
qed

text \<open>The claim as written fails for DELETE: the request of \<open>__delete\<close> has no body, so
  it is not a form body.\<close>

theorem delete_body_counterexample:
  "map verb (helper_requests (new_events fresh
       (snd (priv_delete (scripted [reply 200 []]) fresh ''cluster/c1''
               [(''force'', PBool False)] (PInt 10)))))
     = [DELETE]
   \<and> map body (helper_requests (new_events fresh
       (snd (priv_delete (scripted [reply 200 []]) fresh ''cluster/c1''
               [(''force'', PBool False)] (PInt 10)))))
     = [NoBody]"
  by (simp add: priv_delete_def auth_req_unfold scripted_def reply_def fresh_def
        helper_request_def from_helper_def helper_requests_def new_events_def)

section \<open>Optional arguments left empty\<close>

lemma snd_outcome:
  "snd (case p of (Inl x, s1) \<Rightarrow> (F x, s1) | (Inr r, s1) \<Rightarrow> (G r, s1)) = snd p"
  by (cases p) (simp split: sum.splits)

lemma get_repairs_state:
  "snd (get_repairs e s cluster states t)
     = snd (priv_get e s ''repair_run''
              (let ps1 = (if cluster \<noteq> [] then setitem [] ''cluster_name'' (PStr cluster) else [])
               in if states \<noteq> [] then setitem ps1 ''state'' (PStr (join '','' states)) else ps1)
              t)"
  unfolding get_repairs_def Let_def snd_outcome ..

lemma get_schedules_state:
  "snd (get_schedules e s cluster keyspace t)
     = snd (priv_get e s ''repair_schedule''
              (let ps1 = (if cluster \<noteq> [] then setitem [] ''clusterName'' (PStr cluster) else [])
               in if keyspace \<noteq> [] then setitem ps1 ''keyspace'' (PStr keyspace) else ps1)
              t)"
  unfolding get_schedules_def Let_def snd_outcome ..

lemma create_cluster_snapshot_state:
  "snd (create_cluster_snapshot e s cluster snapshot_name owner cause keyspace tables t)
     = snd (priv_post e s (''/snapshot/cluster/'' @ cluster)
              (let ps0 = [(''snapshot_name'', PStr snapshot_name), (''owner'', PStr owner)];
                   ps1 = (if keyspace \<noteq> [] then setitem ps0 ''keyspace'' (PStr keyspace) else ps0);
                   ps2 = (if tables \<noteq> [] then setitem ps1 ''tables'' (PStr (join '','' tables))
                          else ps1)
               in if cause \<noteq> [] then setitem ps2 ''cause'' (PStr cause) else ps2)
              [] t)"
  unfolding create_cluster_snapshot_def Let_def snd_outcome ..

lemma create_host_snapshot_state:
  "snd (create_host_snapshot e s cluster host snapshot_name owner cause keyspace tables t)
     = snd (priv_post e s (''/snapshot/'' @ cluster @ ''/'' @ host)
              (let ps0 = [(''snapshot_name'', PStr snapshot_name), (''owner'', PStr owner)];
                   ps1 = (if keyspace \<noteq> [] then setitem ps0 ''keyspace'' (PStr keyspace) else ps0);
                   ps2 = (if tables \<noteq> [] then setitem ps1 ''tables'' (PStr (join '','' tables))
                          else ps1)
               in if cause \<noteq> [] then setitem ps2 ''cause'' (PStr cause) else ps2)
              [] t)"
  unfolding create_host_snapshot_def Let_def snd_outcome ..

lemma get_repairs_keys:
  "sent_keys s (snd (get_repairs e s cluster states t))
     = (if cluster \<noteq> [] then {''cluster_name''} else {})
       \<union> (if states \<noteq> [] then {''state''} else {})"
  unfolding get_repairs_state priv_get_def auth_req_sent_keys Let_def
  by (simp add: setitem_keys insert_commute)

lemma get_schedules_keys:
  "sent_keys s (snd (get_schedules e s cluster keyspace t))
     = (if cluster \<noteq> [] then {''clusterName''} else {})
       \<union> (if keyspace \<noteq> [] then {''keyspace''} else {})"
  unfolding get_schedules_state priv_get_def auth_req_sent_keys Let_def
  by (simp add: setitem_keys insert_commute)

lemma create_cluster_snapshot_keys:
  "sent_keys s (snd (create_cluster_snapshot e s cluster snapshot_name owner cause keyspace tables t))
     = {''snapshot_name'', ''owner''}
       \<union> (if keyspace \<noteq> [] then {''keyspace''} else {})
       \<union> (if tables \<noteq> [] then {''tables''} else {})
       \<union> (if cause \<noteq> [] then {''cause''} else {})"
  unfolding create_cluster_snapshot_state priv_post_def auth_req_sent_keys Let_def
  by (simp add: setitem_keys insert_commute)

lemma create_host_snapshot_keys:
  "sent_keys s (snd (create_host_snapshot e s cluster host snapshot_name owner cause keyspace tables t))
     = {''snapshot_name'', ''owner''}
       \<union> (if keyspace \<noteq> [] then {''keyspace''} else {})
       \<union> (if tables \<noteq> [] then {''tables''} else {})
       \<union> (if cause \<noteq> [] then {''cause''} else {})"
  unfolding create_host_snapshot_state priv_post_def auth_req_sent_keys Let_def
  by (simp add: setitem_keys insert_commute)

lemma add_schedule_keys:
  "sent_keys s (snd (add_schedule e s a))
     = {''clusterName'', ''keyspace'', ''owner'', ''scheduleDaysBetween'', ''repairParallelism'',
        ''incrementalRepair'', ''scheduleTriggerTime'', ''repairThreadCount'', ''adaptive'',
        ''percentUnrepairedThreshold''}
       \<union> (if as_tables a \<noteq> [] then {''tables''} else {})
       \<union> (if as_segment_count_per_node a \<noteq> 0 then {''segmentCountPerNode''} else {})
       \<union> (if as_intensity a \<noteq> 0 then {''intensity''} else {})
       \<union> (if as_nodes a \<noteq> [] then {''nodes''} else {})
       \<union> (if as_datacenters a \<noteq> [] then {''datacenters''} else {})
       \<union> (if as_blacklisted_tables a \<noteq> [] then {''blacklistedTables''} else {})"
  unfolding add_schedule_def Let_def snd_outcome priv_post_def auth_req_sent_keys
  by (simp add: setitem_keys insert_commute)

text \<open>
  Claim C8. In \<open>get_repairs\<close>, \<open>get_schedules\<close>, \<open>create_cluster_snapshot\<close>,
  \<open>create_host_snapshot\<close> and \<open>add_schedule\<close>, an optional argument left at its empty
  default (\<open>''\<close>, \<open>[]\<close>, \<open>0\<close> or \<open>0.0\<close>) puts no key into the query parameters: no request
  that the operation sends carries the key of that argument, whatever the other
  arguments are.
\<close>

theorem empty_defaults_omitted:
  "sent_keys s (snd (get_repairs e s [] [] t)) = {}
   \<and> sent_keys s (snd (get_schedules e s [] [] t)) = {}
   \<and> sent_keys s (snd (create_cluster_snapshot e s cluster name owner [] [] [] t))
       = {''snapshot_name'', ''owner''}
   \<and> sent_keys s (snd (create_host_snapshot e s cluster host name owner [] [] [] t))
       = {''snapshot_name'', ''owner''}
   \<and> ''cluster_name'' \<notin> sent_keys s (snd (get_repairs e s [] states t))
   \<and> ''state'' \<notin> sent_keys s (snd (get_repairs e s cluster [] t))
   \<and> ''clusterName'' \<notin> sent_keys s (snd (get_schedules e s [] keyspace t))
   \<and> ''keyspace'' \<notin> sent_keys s (snd (get_schedules e s cluster [] t))
   \<and> ''cause'' \<notin> sent_keys s (snd (create_cluster_snapshot e s cluster name owner [] keyspace tables t))
   \<and> ''keyspace'' \<notin> sent_keys s (snd (create_cluster_snapshot e s cluster name owner cause [] tables t))
   \<and> ''tables'' \<notin> sent_keys s (snd (create_cluster_snapshot e s cluster name owner cause keyspace [] t))
   \<and> ''cause'' \<notin> sent_keys s (snd (create_host_snapshot e s cluster host name owner [] keyspace tables t))
   \<and> ''keyspace'' \<notin> sent_keys s (snd (create_host_snapshot e s cluster host name owner cause [] tables t))
   \<and> ''tables'' \<notin> sent_keys s (snd (create_host_snapshot e s cluster host name owner cause keyspace [] t))
   \<and> ''tables'' \<notin> sent_keys s (snd (add_schedule e s (a\<lparr>as_tables := []\<rparr>)))
   \<and> ''segmentCountPerNode'' \<notin> sent_keys s (snd (add_schedule e s (a\<lparr>as_segment_count_per_node := 0\<rparr>)))
   \<and> ''intensity'' \<notin> sent_keys s (snd (add_schedule e s (a\<lparr>as_intensity := 0\<rparr>)))
   \<and> ''nodes'' \<notin> sent_keys s (snd (add_schedule e s (a\<lparr>as_nodes := []\<rparr>)))
   \<and> ''datacenters'' \<notin> sent_keys s (snd (add_schedule e s (a\<lparr>as_datacenters := []\<rparr>)))
   \<and> ''blacklistedTables'' \<notin> sent_keys s (snd (add_schedule e s (a\<lparr>as_blacklisted_tables := []\<rparr>)))"
  by (intro conjI)
     (simp_all add: get_repairs_keys get_schedules_keys create_cluster_snapshot_keys
        create_host_snapshot_keys add_schedule_keys)

theorem empty_defaults_omitted_witness:
  "sent_keys fresh (snd (get_repairs (scripted [reply 200 ''[c1,c2]'']) fresh [] [] (PInt 10))) = {}
   \<and> map params (history (new_events fresh
         (snd (get_repairs (scripted [reply 200 ''[c1,c2]'']) fresh [] [] (PInt 10)))))
       = [Some []]
   \<and> map params (history (new_events fresh
         (snd (get_repairs (scripted [reply 200 ''[c1,c2]'']) fresh ''prod'' [''RUNNING'', ''PAUSED'']
                 (PInt 10)))))
       = [Some [(''cluster_name'', PStr ''prod''), (''state'', PStr ''RUNNING,PAUSED'')]]"
proof -
  let ?e = "scripted [reply 200 ''[c1,c2]'']"
  have a: "sent_keys fresh (snd (get_repairs ?e fresh [] [] (PInt 10))) = {}"
    using empty_defaults_omitted [of fresh ?e "PInt 10"] by (rule conjunct1)
  have b: "map params (history (new_events fresh (snd (get_repairs ?e fresh [] [] (PInt 10)))))
             = [Some []]"
    by (simp add: get_repairs_state priv_get_def auth_req_unfold scripted_def reply_def fresh_def
          helper_request_def new_events_def)
  have c: "map params (history (new_events fresh
             (snd (get_repairs ?e fresh ''prod'' [''RUNNING'', ''PAUSED''] (PInt 10)))))
           = [Some [(''cluster_name'', PStr ''prod''), (''state'', PStr ''RUNNING,PAUSED'')]]"
    by (simp add: get_repairs_state priv_get_def auth_req_unfold scripted_def reply_def fresh_def
          helper_request_def new_events_def)
  show ?thesis
    by (intro conjI) (rule a, rule b, rule c)
qed

section \<open>Deleting by id\<close>

lemma priv_get_effect: "effect s (snd (priv_get e s q ps t))"
  unfolding priv_get_def by (rule auth_req_effect)

lemma priv_delete_effect: "effect s (snd (priv_delete e s q ps t))"
  unfolding priv_delete_def by (rule auth_req_effect)

text \<open>A GET helper sends its GET first and never sends a DELETE.\<close>

lemma priv_get_requests:
  "\<exists>rest. history (new_events s (snd (priv_get e s q ps t)))
            = helper_request e s GET q ps NoBody t # rest
          \<and> (\<forall>rq \<in> set rest. verb rq \<noteq> DELETE)"
  using auth_req_requests [of s e GET q ps NoBody t]
  unfolding priv_get_def by fastforce

text \<open>A DELETE helper sends its DELETE first; each DELETE it sends has the query
  parameters and the URL it was called with.\<close>

lemma priv_delete_requests:
  "\<exists>rest. history (new_events s (snd (priv_delete e s q ps t)))
            = helper_request e s DELETE q ps NoBody t # rest
          \<and> (\<forall>rq \<in> set rest. verb rq = DELETE
                \<longrightarrow> params rq = Some ps \<and> req_url rq = urljoin e (url s) q)"
  using auth_req_requests [of s e DELETE q ps NoBody t]
  unfolding priv_delete_def by fastforce

lemma get_repair_state:
  "snd (get_repair e s ident t) = snd (priv_get e s (''repair_run/'' @ ident) [] t)"
  unfolding get_repair_def snd_outcome ..

lemma get_schedule_state:
  "snd (get_schedule e s ident t) = snd (priv_get e s (''repair_schedule/'' @ ident) [] t)"
  unfolding get_schedule_def snd_outcome ..

text \<open>The shape shared by \<open>delete_repair\<close> and \<open>delete_schedule\<close>: a GET helper call, then
  a DELETE helper call on the state that the GET left.\<close>

lemma get_then_delete:
  assumes s1: "s1 = snd (priv_get e s q [] t0)"
      and s2: "s2 = snd (priv_delete e s1 q ps t)"
  shows "\<exists>rest. history (new_events s s2) = helper_request e s GET q [] NoBody t0 # rest
          \<and> (\<forall>rq \<in> set (history (new_events s s2)). verb rq = DELETE
                \<longrightarrow> params rq = Some ps \<and> req_url rq = urljoin e (url s) q)
          \<and> (\<exists>rq \<in> set (history (new_events s s2)). verb rq = DELETE)"
proof -
  have e1: "effect s s1" unfolding s1 by (rule priv_get_effect)
  have e2: "effect s1 s2" unfolding s2 by (rule priv_delete_effect)
  have u: "url s1 = url s" using e1 by (simp add: effect_def)
  from priv_get_requests [of s e q "[]" t0] obtain r1 where
    g: "history (new_events s s1) = helper_request e s GET q [] NoBody t0 # r1"
    and g': "\<forall>rq \<in> set r1. verb rq \<noteq> DELETE"
    unfolding s1 by blast
  from priv_delete_requests [of s1 e q ps t] obtain r2 where
    d: "history (new_events s1 s2) = helper_request e s1 DELETE q ps NoBody t # r2"
    and d': "\<forall>rq \<in> set r2. verb rq = DELETE
                \<longrightarrow> params rq = Some ps \<and> req_url rq = urljoin e (url s1) q"
    unfolding s2 by blast
  have h: "history (new_events s s2)
             = helper_request e s GET q [] NoBody t0
                 # (r1 @ helper_request e s1 DELETE q ps NoBody t # r2)"
    by (simp add: effect_new_events_trans [OF e1 e2] history_append g d)
  have own: "verb (helper_request e s1 DELETE q ps NoBody t) = DELETE
             \<and> params (helper_request e s1 DELETE q ps NoBody t) = Some ps
             \<and> req_url (helper_request e s1 DELETE q ps NoBody t) = urljoin e (url s) q
             \<and> verb (helper_request e s GET q [] NoBody t0) = GET"
    by (simp add: helper_request_def u)
  show ?thesis
    unfolding h using g' d' own u by auto
qed

lemma get_fails_no_delete:
  assumes "s1 = snd (priv_get e s q [] t0)"
  shows "\<forall>rq \<in> set (history (new_events s s1)). verb rq \<noteq> DELETE"
  using priv_get_requests [of s e q "[]" t0] assms
  by (auto simp: helper_request_def)

lemma get_then_delete_hd:
  assumes s1: "s1 = snd (priv_get e s q [] t0)"
      and s2: "s2 = snd (priv_delete e s1 q ps t)"
  shows "hd (history (new_events s s2)) = helper_request e s GET q [] NoBody t0"
    and "\<forall>rq \<in> set (history (new_events s s2)). verb rq = DELETE
           \<longrightarrow> params rq = Some ps \<and> req_url rq = urljoin e (url s) q"
    and "\<exists>rq \<in> set (history (new_events s s2)). verb rq = DELETE"
  using get_then_delete [OF s1 s2] by auto

lemma delete_repair_get_fails:
  assumes g: "get_repair e s ident (PInt 10) = (Inl x, s1)"
  shows "delete_repair e s ident t = (Inl x, s1)
         \<and> (\<forall>rq \<in> set (history (new_events s s1)). verb rq \<noteq> DELETE)"
proof
  show "delete_repair e s ident t = (Inl x, s1)"
    by (simp add: delete_repair_def g)
  have "s1 = snd (priv_get e s (''repair_run/'' @ ident) [] (PInt 10))"
    using g get_repair_state [of e s ident "PInt 10"] by simp
  then show "\<forall>rq \<in> set (history (new_events s s1)). verb rq \<noteq> DELETE"
    by (rule get_fails_no_delete)
qed

lemma delete_schedule_get_fails:
  assumes g: "get_schedule e s ident (PInt 10) = (Inl x, s1)"
  shows "delete_schedule e s ident t = (Inl x, s1)
         \<and> (\<forall>rq \<in> set (history (new_events s s1)). verb rq \<noteq> DELETE)"
proof
  show "delete_schedule e s ident t = (Inl x, s1)"
    by (simp add: delete_schedule_def g)
  have "s1 = snd (priv_get e s (''repair_schedule/'' @ ident) [] (PInt 10))"
    using g get_schedule_state [of e s ident "PInt 10"] by simp
  then show "\<forall>rq \<in> set (history (new_events s s1)). verb rq \<noteq> DELETE"
    by (rule get_fails_no_delete)
qed

lemma delete_repair_get_ok:
  assumes g: "get_repair e s ident (PInt 10) = (Inr obj, s1)"
      and o: "getitem obj ''owner'' = Inr ow"
  shows "delete_repair e s ident t
            = (case priv_delete e s1 (''repair_run/'' @ ident) [(''owner'', ow)] t of
                 (Inl y, s2) \<Rightarrow> (Inl y, s2) | (Inr r, s2) \<Rightarrow> (Inr (), s2))
        \<and> hd (history (new_events s (snd (delete_repair e s ident t))))
            = helper_request e s GET (''repair_run/'' @ ident) [] NoBody (PInt 10)
        \<and> (\<forall>rq \<in> set (history (new_events s (snd (delete_repair e s ident t)))).
              verb rq = DELETE
              \<longrightarrow> params rq = Some [(''owner'', ow)]
                  \<and> req_url rq = urljoin e (url s) (''repair_run/'' @ ident))
        \<and> (\<exists>rq \<in> set (history (new_events s (snd (delete_repair e s ident t)))).
              verb rq = DELETE)"
proof -
  let ?q = "''repair_run/'' @ ident"
  have a: "delete_repair e s ident t
            = (case priv_delete e s1 ?q [(''owner'', ow)] t of
                 (Inl y, s2) \<Rightarrow> (Inl y, s2) | (Inr r, s2) \<Rightarrow> (Inr (), s2))"
    by (simp add: delete_repair_def g o)
  have s1: "s1 = snd (priv_get e s ?q [] (PInt 10))"
    using g get_repair_state [of e s ident "PInt 10"] by simp
  have s2: "snd (delete_repair e s ident t) = snd (priv_delete e s1 ?q [(''owner'', ow)] t)"
    unfolding a snd_outcome ..
  show ?thesis
    by (intro conjI)
       (rule a, rule get_then_delete_hd(1) [OF s1 s2], rule get_then_delete_hd(2) [OF s1 s2],
        rule get_then_delete_hd(3) [OF s1 s2])
qed

lemma delete_schedule_get_ok:
  assumes g: "get_schedule e s ident (PInt 10) = (Inr obj, s1)"
      and o: "getitem obj ''owner'' = Inr ow"
  shows "delete_schedule e s ident t
            = (case priv_delete e s1 (''repair_schedule/'' @ ident) [(''owner'', ow)] t of
                 (Inl y, s2) \<Rightarrow> (Inl y, s2) | (Inr r, s2) \<Rightarrow> (Inr (), s2))
        \<and> hd (history (new_events s (snd (delete_schedule e s ident t))))
            = helper_request e s GET (''repair_schedule/'' @ ident) [] NoBody (PInt 10)
        \<and> (\<forall>rq \<in> set (history (new_events s (snd (delete_schedule e s ident t)))).
              verb rq = DELETE
              \<longrightarrow> params rq = Some [(''owner'', ow)]
                  \<and> req_url rq = urljoin e (url s) (''repair_schedule/'' @ ident))
        \<and> (\<exists>rq \<in> set (history (new_events s (snd (delete_schedule e s ident t)))).
              verb rq = DELETE)"
proof -
  let ?q = "''repair_schedule/'' @ ident"
  have a: "delete_schedule e s ident t
            = (case priv_delete e s1 ?q [(''owner'', ow)] t of
                 (Inl y, s2) \<Rightarrow> (Inl y, s2) | (Inr r, s2) \<Rightarrow> (Inr (), s2))"
    by (simp add: delete_schedule_def g o)
  have s1: "s1 = snd (priv_get e s ?q [] (PInt 10))"
    using g get_schedule_state [of e s ident "PInt 10"] by simp
  have s2: "snd (delete_schedule e s ident t) = snd (priv_delete e s1 ?q [(''owner'', ow)] t)"
    unfolding a snd_outcome ..
  show ?thesis
    by (intro conjI)
       (rule a, rule get_then_delete_hd(1) [OF s1 s2], rule get_then_delete_hd(2) [OF s1 s2],
        rule get_then_delete_hd(3) [OF s1 s2])
qed

text \<open>
  Claim C9. \<open>delete_repair\<close> and \<open>delete_schedule\<close> first send a GET for the resource by
  id. If reading the resource fails (\<open>get_repair\<close> or \<open>get_schedule\<close> raises), the operation
  raises that failure and no DELETE is sent. If it returns an object with an \<open>owner\<close>
  entry, the operation goes on with the DELETE helper for the same path, every DELETE
  that is sent carries exactly the query parameter \<open>owner\<close> with the value read, and at
  least one DELETE is sent.
\<close>

theorem delete_uses_owner_of_get:
  "(get_repair e s ident (PInt 10) = (Inl x, s1)
      \<longrightarrow> delete_repair e s ident t = (Inl x, s1)
        \<and> (\<forall>rq \<in> set (history (new_events s s1)). verb rq \<noteq> DELETE))
   \<and> (get_repair e s ident (PInt 10) = (Inr obj, s1) \<and> getitem obj ''owner'' = Inr ow
      \<longrightarrow> delete_repair e s ident t
            = (case priv_delete e s1 (''repair_run/'' @ ident) [(''owner'', ow)] t of
                 (Inl y, s2) \<Rightarrow> (Inl y, s2) | (Inr r, s2) \<Rightarrow> (Inr (), s2))
        \<and> hd (history (new_events s (snd (delete_repair e s ident t))))
            = helper_request e s GET (''repair_run/'' @ ident) [] NoBody (PInt 10)
        \<and> (\<forall>rq \<in> set (history (new_events s (snd (delete_repair e s ident t)))).
              verb rq = DELETE
              \<longrightarrow> params rq = Some [(''owner'', ow)]
                  \<and> req_url rq = urljoin e (url s) (''repair_run/'' @ ident))
        \<and> (\<exists>rq \<in> set (history (new_events s (snd (delete_repair e s ident t)))).
              verb rq = DELETE))
   \<and> (get_schedule e s ident (PInt 10) = (Inl x, s1)
      \<longrightarrow> delete_schedule e s ident t = (Inl x, s1)
        \<and> (\<forall>rq \<in> set (history (new_events s s1)). verb rq \<noteq> DELETE))
   \<and> (get_schedule e s ident (PInt 10) = (Inr obj, s1) \<and> getitem obj ''owner'' = Inr ow
      \<longrightarrow> delete_schedule e s ident t
            = (case priv_delete e s1 (''repair_schedule/'' @ ident) [(''owner'', ow)] t of
                 (Inl y, s2) \<Rightarrow> (Inl y, s2) | (Inr r, s2) \<Rightarrow> (Inr (), s2))
        \<and> hd (history (new_events s (snd (delete_schedule e s ident t))))
            = helper_request e s GET (''repair_schedule/'' @ ident) [] NoBody (PInt 10)
        \<and> (\<forall>rq \<in> set (history (new_events s (snd (delete_schedule e s ident t)))).
              verb rq = DELETE
              \<longrightarrow> params rq = Some [(''owner'', ow)]
                  \<and> req_url rq = urljoin e (url s) (''repair_schedule/'' @ ident))
        \<and> (\<exists>rq \<in> set (history (new_events s (snd (delete_schedule e s ident t)))).
              verb rq = DELETE))"
  (is "?A \<and> ?B \<and> ?C \<and> ?D")
proof (intro conjI)
  show ?A by (rule impI) (erule delete_repair_get_fails)
  show ?B by (rule impI, erule conjE) (rule delete_repair_get_ok)
  show ?C by (rule impI) (erule delete_schedule_get_fails)
  show ?D by (rule impI, erule conjE) (rule delete_schedule_get_ok)
qed


theorem delete_uses_owner_of_get_witness:
  "hd (history (new_events fresh
         (snd (delete_repair (scripted [reply 200 ''{owner:bob}'', reply 200 []]) fresh ''7''
                 (PInt 30)))))
     = helper_request (scripted [reply 200 ''{owner:bob}'', reply 200 []]) fresh GET
         ''repair_run/7'' [] NoBody (PInt 10)
   \<and> map (\<lambda>rq. (verb rq, params rq, timeout rq))
         (history (new_events fresh
            (snd (delete_repair (scripted [reply 200 ''{owner:bob}'', reply 200 []]) fresh ''7''
                    (PInt 30)))))
       = [(GET, Some [], Some (PInt 10)),
          (DELETE, Some [(''owner'', PStr ''bob'')], Some (PInt 30))]
   \<and> fst (delete_schedule (scripted [reply 404 ''no such schedule'']) fresh ''9'' (PInt 10))
       = Inl (HTTPError ''URL: http://reaper/, Status: 404, Text: no such schedule'')
   \<and> map verb (history (new_events fresh
         (snd (delete_schedule (scripted [reply 404 ''no such schedule'']) fresh ''9'' (PInt 10)))))
       = [GET]"
proof -
  let ?e = "scripted [reply 200 ''{owner:bob}'', reply 200 []]"
  let ?s1 = "snd (get_repair ?e fresh ''7'' (PInt 10))"
  let ?obj = "PDict [(''owner'', PStr ''bob'')]"
  have "fst (get_repair ?e fresh ''7'' (PInt 10)) = Inr ?obj"
    by (simp add: get_repair_def priv_get_def auth_req_unfold scripted_def reply_def fresh_def
          resp_json_def mock_json_def)
  then have g: "get_repair ?e fresh ''7'' (PInt 10) = (Inr ?obj, ?s1)"
    by (metis prod.collapse)
  have o: "getitem ?obj ''owner'' = Inr (PStr ''bob'')"
    by simp
  have "hd (history (new_events fresh (snd (delete_repair ?e fresh ''7'' (PInt 30)))))
             = helper_request ?e fresh GET (''repair_run/'' @ ''7'') [] NoBody (PInt 10)"
    by (rule delete_uses_owner_of_get [of ?e fresh "''7''" TransportError ?s1 "PInt 30" ?obj
               "PStr ''bob''", THEN conjunct2, THEN conjunct1, THEN mp, OF conjI [OF g o],
               THEN conjunct2, THEN conjunct1])
  then have a: "hd (history (new_events fresh (snd (delete_repair ?e fresh ''7'' (PInt 30)))))
             = helper_request ?e fresh GET ''repair_run/7'' [] NoBody (PInt 10)"
    by (simp only: append.simps)
  have b: "map (\<lambda>rq. (verb rq, params rq, timeout rq))
             (history (new_events fresh (snd (delete_repair ?e fresh ''7'' (PInt 30)))))
           = [(GET, Some [], Some (PInt 10)),
              (DELETE, Some [(''owner'', PStr ''bob'')], Some (PInt 30))]"
    by (simp add: delete_repair_def get_repair_def priv_get_def priv_delete_def auth_req_unfold
          scripted_def reply_def fresh_def resp_json_def mock_json_def helper_request_def
          new_events_def)
  let ?e2 = "scripted [reply 404 ''no such schedule'']"
  have c: "fst (delete_schedule ?e2 fresh ''9'' (PInt 10))
             = Inl (HTTPError ''URL: http://reaper/, Status: 404, Text: no such schedule'')"
    by (simp add: delete_schedule_def get_schedule_def priv_get_def auth_req_unfold
          scripted_def reply_def fresh_def check_msg_def str_int_def digit_def)
  have d: "map verb (history (new_events fresh (snd (delete_schedule ?e2 fresh ''9'' (PInt 10)))))
             = [GET]"
    by (simp add: delete_schedule_def get_schedule_def priv_get_def auth_req_unfold
          scripted_def reply_def fresh_def helper_request_def new_events_def)
  show ?thesis
    by (intro conjI) (rule a, rule b, rule c, rule d)
qed

end
